theory Spec2Isabelle
  imports Complex_Main "HOL-Library.Word"
begin

unbundle bit_operations_syntax

section \<open>tm\_polygon.h: triangulation and Greiner--Hormann clipping\<close>

text \<open>
  A shallow embedding of \<^verbatim>\<open>tm_polygon.h\<close> (v1.0c). Every C function is a HOL
  function of the same name; a pointer argument that the C code writes through is passed
  in and returned.

  Conventions of the embedding.
  \<^item> \<^verbatim>\<open>float\<close> is the type \<open>f32\<close> below: finite values are computed exactly
    (rounding to 24 bits, overflow and the sign of zero are \<^emph>\<open>not\<close> modelled), while
    division by zero, infinities and NaN follow IEEE 754, because the source relies on
    them (\<^verbatim>\<open>1.0f / 0\<close> in \<^verbatim>\<open>pointInsideTriangle\<close>, \<^verbatim>\<open>x / cross\<close> with
    \<^verbatim>\<open>cross == 0\<close> in \<^verbatim>\<open>clipPolyLineIntersectionFactor\<close>).
  \<^item> \<^verbatim>\<open>tmpo_size_t\<close> is \<open>nat\<close>; \<^verbatim>\<open>tmpo_index\<close> and \<^verbatim>\<open>tmpo_uint16\<close> index fields
    are \<open>nat\<close> with the cast \<open>tmpo_index\<close> (\<open>mod 65536\<close>) written where the source
    casts or stores into a 16 bit field; the \<^verbatim>\<open>flags\<close> field is a \<open>16 word\<close>.
  \<^item> \<^verbatim>\<open>TMPO_ASSERT\<close> is compiled out (the release build); an access outside an array
    is the result \<open>Fault\<close>.
  \<^item> A loop whose trip count the source does not bound takes fuel; \<open>OutOfFuel\<close> is
    the result of a run that needs more steps than the fuel given.
\<close>

subsection \<open>Results\<close>

datatype 'a res = Ok 'a | Fault | OutOfFuel

subsection \<open>float\<close>

datatype f32 = Fin real | PInf | NInf | NaN

instantiation f32 :: "{plus, minus, times, inverse, ord}"
begin

fun plus_f32 :: "f32 \<Rightarrow> f32 \<Rightarrow> f32" where
  "plus_f32 (Fin a) (Fin b) = Fin (a + b)"
| "plus_f32 NaN _ = NaN"
| "plus_f32 _ NaN = NaN"
| "plus_f32 PInf NInf = NaN"
| "plus_f32 NInf PInf = NaN"
| "plus_f32 PInf _ = PInf"
| "plus_f32 NInf _ = NInf"
| "plus_f32 _ PInf = PInf"
| "plus_f32 _ NInf = NInf"

fun minus_f32 :: "f32 \<Rightarrow> f32 \<Rightarrow> f32" where
  "minus_f32 (Fin a) (Fin b) = Fin (a - b)"
| "minus_f32 NaN _ = NaN"
| "minus_f32 _ NaN = NaN"
| "minus_f32 PInf PInf = NaN"
| "minus_f32 NInf NInf = NaN"
| "minus_f32 PInf _ = PInf"
| "minus_f32 NInf _ = NInf"
| "minus_f32 _ PInf = NInf"
| "minus_f32 _ NInf = PInf"

fun times_f32 :: "f32 \<Rightarrow> f32 \<Rightarrow> f32" where
  "times_f32 (Fin a) (Fin b) = Fin (a * b)"
| "times_f32 NaN _ = NaN"
| "times_f32 _ NaN = NaN"
| "times_f32 PInf (Fin b) = (if b = 0 then NaN else if 0 < b then PInf else NInf)"
| "times_f32 NInf (Fin b) = (if b = 0 then NaN else if 0 < b then NInf else PInf)"
| "times_f32 (Fin a) PInf = (if a = 0 then NaN else if 0 < a then PInf else NInf)"
| "times_f32 (Fin a) NInf = (if a = 0 then NaN else if 0 < a then NInf else PInf)"
| "times_f32 PInf PInf = PInf"
| "times_f32 NInf NInf = PInf"
| "times_f32 PInf NInf = NInf"
| "times_f32 NInf PInf = NInf"

text \<open>A zero divisor is taken as \<open>+0\<close>.\<close>

fun divide_f32 :: "f32 \<Rightarrow> f32 \<Rightarrow> f32" where
  "divide_f32 (Fin a) (Fin b) =
     (if b \<noteq> 0 then Fin (a / b)
      else if a = 0 then NaN else if 0 < a then PInf else NInf)"
| "divide_f32 NaN _ = NaN"
| "divide_f32 _ NaN = NaN"
| "divide_f32 (Fin a) PInf = Fin 0"
| "divide_f32 (Fin a) NInf = Fin 0"
| "divide_f32 PInf (Fin b) = (if 0 \<le> b then PInf else NInf)"
| "divide_f32 NInf (Fin b) = (if 0 \<le> b then NInf else PInf)"
| "divide_f32 PInf PInf = NaN"
| "divide_f32 PInf NInf = NaN"
| "divide_f32 NInf PInf = NaN"
| "divide_f32 NInf NInf = NaN"

definition inverse_f32 :: "f32 \<Rightarrow> f32" where
  "inverse_f32 a = divide (Fin 1) a"

text \<open>Comparisons: every comparison with NaN is false.\<close>

fun less_f32 :: "f32 \<Rightarrow> f32 \<Rightarrow> bool" where
  "less_f32 (Fin a) (Fin b) = (a < b)"
| "less_f32 NaN _ = False"
| "less_f32 _ NaN = False"
| "less_f32 _ NInf = False"
| "less_f32 PInf _ = False"
| "less_f32 NInf _ = True"
| "less_f32 _ PInf = True"

fun less_eq_f32 :: "f32 \<Rightarrow> f32 \<Rightarrow> bool" where
  "less_eq_f32 (Fin a) (Fin b) = (a \<le> b)"
| "less_eq_f32 NaN _ = False"
| "less_eq_f32 _ NaN = False"
| "less_eq_f32 NInf _ = True"
| "less_eq_f32 _ PInf = True"
| "less_eq_f32 PInf _ = False"
| "less_eq_f32 _ NInf = False"

instance ..

end

definition is_finite :: "f32 \<Rightarrow> bool" where
  "is_finite a = (case a of Fin _ \<Rightarrow> True | _ \<Rightarrow> False)"


subsection \<open>Vectors\<close>

text \<open>\<^verbatim>\<open>tmpo_vector\<close>: the fields \<^verbatim>\<open>x\<close> and \<^verbatim>\<open>y\<close> are \<open>px\<close> and \<open>py\<close>.\<close>

record tmpo_vector =
  px :: f32
  py :: f32


subsection \<open>isPolygonClockwise\<close>

text \<open>
  \<^verbatim>\<open>for( i = 0; i < count; last = i, ++i ) sum += v[last].x * v[i].y - v[last].y * v[i].x;\<close>
\<close>

function isPolygonClockwise_loop ::
  "tmpo_vector list \<Rightarrow> nat \<Rightarrow> nat \<Rightarrow> nat \<Rightarrow> f32 \<Rightarrow> f32" where
  "isPolygonClockwise_loop vertices count i lasti acc =
     (if i < count
      then isPolygonClockwise_loop vertices count (i + 1) i
             (acc + (px (vertices ! lasti) * py (vertices ! i)
                     - py (vertices ! lasti) * px (vertices ! i)))
      else acc)"
  by pat_completeness auto
termination
  by (relation "measure (\<lambda>(vertices, count, i, lasti, acc). count - i)") auto

declare isPolygonClockwise_loop.simps [simp del]

text \<open>The value of \<^verbatim>\<open>sum\<close> when the loop of \<^verbatim>\<open>isPolygonClockwise\<close> ends.\<close>

definition shoelace :: "tmpo_vector list \<Rightarrow> nat \<Rightarrow> f32" where
  "shoelace vertices count = isPolygonClockwise_loop vertices count 0 (count - 1) (Fin 0)"

definition isPolygonClockwise :: "tmpo_vector list \<Rightarrow> nat \<Rightarrow> bool res" where
  "isPolygonClockwise vertices count =
     (if count \<le> length vertices then Ok (shoelace vertices count \<ge> Fin 0) else Fault)"

subsection \<open>Ear clipping\<close>

text \<open>The casts to \<^verbatim>\<open>tmpo_index\<close> and \<^verbatim>\<open>tmpo_uint16\<close> (\<^verbatim>\<open>unsigned short\<close>).\<close>

definition tmpo_index :: "nat \<Rightarrow> nat" where
  "tmpo_index n = n mod 65536"

definition TMPO_CLOCKWISE_TRIANGLES :: bool where
  "TMPO_CLOCKWISE_TRIANGLES = True"

definition isTriangleClockwise :: "tmpo_vector \<Rightarrow> tmpo_vector \<Rightarrow> tmpo_vector \<Rightarrow> bool" where
  "isTriangleClockwise a b c =
     (let bx = px b - px a;
          by = py b - py a;
          cx = px c - px a;
          cy = py c - py a;
          cross = bx * cy - by * cx
      in cross \<ge> Fin 0)"

definition pointInsideTriangle ::
  "tmpo_vector \<Rightarrow> tmpo_vector \<Rightarrow> tmpo_vector \<Rightarrow> tmpo_vector \<Rightarrow> bool" where
  "pointInsideTriangle a b c v =
     (let bx = px b - px a;
          by = py b - py a;
          cx = px c - px a;
          cy = py c - py a;
          vx = px v - px a;
          vy = py v - py a;
          bc = bx * cx + by * cy;
          vc = vx * cx + vy * cy;
          vb = vx * bx + vy * by;
          cc = cx * cx + cy * cy;
          bb = bx * bx + by * by;
          invDenom = Fin 1 / (bb * cc - bc * bc);
          r = (cc * vb - bc * vc) * invDenom;
          s = (bb * vc - bc * vb) * invDenom
      in r \<ge> Fin 0 \<and> s \<ge> Fin 0 \<and> r + s \<le> Fin 1)"

text \<open>
  The loop of \<^verbatim>\<open>isTriangleEar\<close>: it runs over all \<^verbatim>\<open>count\<close> vertices of the
  input array (not only over those still in the query list).
\<close>

function isTriangleEar_loop ::
  "tmpo_vector list \<Rightarrow> nat \<Rightarrow> nat \<Rightarrow> nat \<Rightarrow> nat \<Rightarrow>
   tmpo_vector \<Rightarrow> tmpo_vector \<Rightarrow> tmpo_vector \<Rightarrow> nat \<Rightarrow> bool res" where
  "isTriangleEar_loop vertices count a b c va vb vc i =
     (if i < count then
        if i = a \<or> i = b \<or> i = c then
          isTriangleEar_loop vertices count a b c va vb vc (i + 1)
        else if \<not> i < length vertices then Fault
        else if pointInsideTriangle va vb vc (vertices ! i) then Ok False
        else isTriangleEar_loop vertices count a b c va vb vc (i + 1)
      else Ok True)"
  by pat_completeness auto
termination
  by (relation "measure (\<lambda>(vertices, count, a, b, c, va, vb, vc, i). count - i)") auto

declare isTriangleEar_loop.simps [simp del]

definition isTriangleEar ::
  "nat \<Rightarrow> nat \<Rightarrow> nat \<Rightarrow> tmpo_vector list \<Rightarrow> nat \<Rightarrow> bool \<Rightarrow> bool res" where
  "isTriangleEar a b c vertices count cw =
     (if a < length vertices \<and> b < length vertices \<and> c < length vertices then
        (let va = vertices ! a; vb = vertices ! b; vc = vertices ! c
         in if isTriangleClockwise va vb vc \<noteq> cw then Ok False
            else isTriangleEar_loop vertices count a b c va vb vc 0)
      else Fault)"

text \<open>\<^verbatim>\<open>for( i = 0; i < size; ++i ) queryList[i] = (tmpo_index)i;\<close>\<close>

fun fill_queryList :: "nat \<Rightarrow> nat list \<Rightarrow> nat list" where
  "fill_queryList 0 queryList = queryList"
| "fill_queryList (Suc n) queryList = (fill_queryList n queryList)[n := tmpo_index n]"

text \<open>
  \<^verbatim>\<open>TMPO_MEMMOVE( queryList + b, queryList + b + 1, n * sizeof( tmpo_index ) )\<close>
\<close>

definition memmove_down :: "nat list \<Rightarrow> nat \<Rightarrow> nat \<Rightarrow> nat list" where
  "memmove_down queryList b n =
     take b queryList @ take n (drop (b + 1) queryList) @ drop (b + n) queryList"

text \<open>
  The \<^verbatim>\<open>while( size > 2 )\<close> loop. The state is
  \<open>(queryList, out, size, indicesCount, a, b, c, current, iterationCount)\<close>; \<open>out\<close> is
  the whole output buffer, written at \<open>indicesCount\<close>. The result is
  \<open>(indicesCount, out, queryList)\<close>.
\<close>

function triangulate_loop ::
  "tmpo_vector list \<Rightarrow> nat \<Rightarrow> bool \<Rightarrow> nat \<Rightarrow> nat \<Rightarrow>
   nat list \<times> nat list \<times> nat \<times> nat \<times> nat \<times> nat \<times> nat \<times> nat \<times> nat \<Rightarrow>
   (nat \<times> nat list \<times> nat list) res" where
  "triangulate_loop vertices verticesCount clockwise begin_off maxIndices
     (queryList, out, sz, indicesCount, a, b, c, current, iterationCount) =
   (if sz > 2 then
      if \<not> (a < length queryList \<and> b < length queryList \<and> c < length queryList) then Fault
      else
        (case isTriangleEar (queryList ! a) (queryList ! b) (queryList ! c)
                vertices verticesCount clockwise of
           Fault \<Rightarrow> Fault
         | OutOfFuel \<Rightarrow> OutOfFuel
         | Ok True \<Rightarrow>
             if indicesCount + 3 > maxIndices then Ok (indicesCount, out, queryList)
             else if indicesCount + 3 > length out \<or> sz > length queryList \<or> b > sz - 1 then Fault
             else
               (let qa = tmpo_index (queryList ! a + begin_off);
                    qb = tmpo_index (queryList ! b + begin_off);
                    qc = tmpo_index (queryList ! c + begin_off);
                    out1 = (if clockwise = TMPO_CLOCKWISE_TRIANGLES
                            then out[indicesCount := qa, indicesCount + 1 := qb,
                                     indicesCount + 2 := qc]
                            else out[indicesCount := qa, indicesCount + 1 := qc,
                                     indicesCount + 2 := qb]);
                    sz1 = sz - 1;
                    queryList1 = memmove_down queryList b (sz1 - b);
                    current1 = (if a \<ge> sz1 then a - sz1 else a);
                    a1 = (if current1 \<ge> 2 then current1 - 2 else sz1 - (2 - current1));
                    b1 = (if current1 \<ge> 2 then current1 - 1
                          else if current1 \<ge> 1 then current1 - 1
                          else sz1 - (1 - current1))
                in triangulate_loop vertices verticesCount clockwise begin_off maxIndices
                     (queryList1, out1, sz1, indicesCount + 3, a1, b1, current1, current1, 0))
         | Ok False \<Rightarrow>
             (let wrap = (current + 1 \<ge> sz);
                  a1 = (if wrap then sz - 2 else b);
                  b1 = (if wrap then sz - 1 else current);
                  current1 = (if wrap then 0 else current + 1)
              in if iterationCount > 2 * sz then Ok (indicesCount, out, queryList)
                 else triangulate_loop vertices verticesCount clockwise begin_off maxIndices
                        (queryList, out, sz, indicesCount, a1, b1, current1, current1,
                         iterationCount + 1)))
    else Ok (indicesCount, out, queryList))"
  by pat_completeness auto
termination
  by (relation "inv_image (less_than <*lex*> less_than)
        (\<lambda>(vertices, verticesCount, clockwise, begin_off, maxIndices,
            queryList, out, sz, indicesCount, a, b, c, current, iterationCount).
           (sz, 2 * sz + 2 - iterationCount))") auto

declare triangulate_loop.simps [simp del]

text \<open>
  \<^verbatim>\<open>begin\<close> is \<open>begin_off\<close>. The result is the number of indices, the output buffer
  and the query list.
\<close>

definition triangulatePolygonEarClipping ::
  "tmpo_vector list \<Rightarrow> nat \<Rightarrow> bool \<Rightarrow> nat list \<Rightarrow> nat \<Rightarrow> nat \<Rightarrow> nat list \<Rightarrow> nat \<Rightarrow>
   (nat \<times> nat list \<times> nat list) res" where
  "triangulatePolygonEarClipping vertices count clockwise queryList queryCount begin_off
     out maxIndices =
     (if count < 3 then Ok (0, out, queryList)
      else
        (let sz = (if count < queryCount then count else queryCount)
         in if sz > length queryList then Fault
            else triangulate_loop vertices count clockwise begin_off maxIndices
                   (fill_queryList sz queryList, out, sz, 0, 0, 1, 2, 2, 0)))"

subsection \<open>Clip rings\<close>

record ClipVertex =
  pos :: tmpo_vector
  "next" :: nat
  prev :: nat
  nextPoly :: nat
  flags :: "16 word"
  neighbor :: nat
  alpha :: f32

definition CVF_INTERSECT :: "16 word" where
  "CVF_INTERSECT = 1"

definition CVF_EXIT :: "16 word" where
  "CVF_EXIT = 2"

definition CVF_PROCESSED :: "16 word" where
  "CVF_PROCESSED = 4"

datatype ClipFollowDirection = CFD_FORWARD | CFD_BACKWARD

text \<open>
  \<^verbatim>\<open>ClipVertices\<close>: \<open>data\<close> is the slab the pointer refers to (its length is the memory
  that may be accessed), the field \<^verbatim>\<open>size\<close> is \<open>csize\<close>.
\<close>

record ClipVertices =
  data :: "ClipVertex list"
  originalSize :: nat
  csize :: nat
  capacity :: nat

text \<open>
  \<^verbatim>\<open>ClipPolygonEntry\<close>: the pointer \<^verbatim>\<open>vertices\<close> into the pool is the offset
  \<open>poly_vertices\<close>; \<^verbatim>\<open>size\<close> is \<open>poly_size\<close>.
\<close>

record ClipPolygonEntry =
  poly_vertices :: nat
  poly_size :: nat

record ClipPolyResult =
  r_polygons :: nat
  r_vertices :: nat

text \<open>What \<^verbatim>\<open>TMPO_MEMSET( p, 0, sizeof( ClipVertex ) )\<close> leaves.\<close>

definition zero_ClipVertex :: ClipVertex where
  "zero_ClipVertex =
     \<lparr>pos = \<lparr>px = Fin 0, py = Fin 0\<rparr>, next = 0, prev = 0, nextPoly = 0, flags = 0,
      neighbor = 0, alpha = Fin 0\<rparr>"

subsection \<open>clipPolyTransformData\<close>

text \<open>
  The \<^verbatim>\<open>for\<close> loop of \<^verbatim>\<open>clipPolyTransformData\<close>, after the \<^verbatim>\<open>memset\<close>; \<open>prevv\<close> is
  the local \<^verbatim>\<open>prev\<close>.
\<close>

function clipPolyTransformData_loop ::
  "tmpo_vector list \<Rightarrow> nat \<Rightarrow> nat \<Rightarrow> nat \<Rightarrow> ClipVertex list \<Rightarrow> ClipVertex list" where
  "clipPolyTransformData_loop vertices verticesCount i prevv clipVertices =
     (if i < verticesCount then
        clipPolyTransformData_loop vertices verticesCount (i + 1) (tmpo_index i)
          (clipVertices[i := (clipVertices ! i)
              \<lparr>pos := vertices ! i, next := tmpo_index (i + 1), prev := prevv\<rparr>])
      else clipVertices)"
  by pat_completeness auto
termination
  by (relation "measure (\<lambda>(vertices, verticesCount, i, prevv, clipVertices).
        verticesCount - i)") auto

declare clipPolyTransformData_loop.simps [simp del]

definition clipPolyTransformData ::
  "tmpo_vector list \<Rightarrow> nat \<Rightarrow> ClipVertex list \<Rightarrow> nat \<Rightarrow> ClipVertices res" where
  "clipPolyTransformData vertices count clipVertices maxClipVertices =
     (if count > length vertices \<or> count > length clipVertices then Fault
      else
        (let zeroed = replicate count zero_ClipVertex @ drop count clipVertices;
             linked = clipPolyTransformData_loop vertices count 0
                        (tmpo_index (tmpo_index count + 65535)) zeroed;
             closed = (if count \<noteq> 0
                       then linked[count - 1 := (linked ! (count - 1))\<lparr>next := 0\<rparr>]
                       else linked)
         in Ok \<lparr>data = closed, originalSize = count, csize = count,
                capacity = maxClipVertices\<rparr>))"

subsection \<open>clipPolyFindIntersections\<close>

text \<open>
  \<^verbatim>\<open>clipPolyCreateVertex\<close> inserts after \<open>at_i\<close> (the argument \<^verbatim>\<open>at\<close>); the new node is at the old
  \<^verbatim>\<open>size\<close>. The assertion \<^verbatim>\<open>size + 1 <= capacity\<close> is compiled out: writing the new
  node outside the slab is the fault.
\<close>

definition clipPolyCreateVertex :: "ClipVertices \<Rightarrow> nat \<Rightarrow> ClipVertices res" where
  "clipPolyCreateVertex vertices at_i =
     (let d = data vertices; n = csize vertices
      in if \<not> (n < length d \<and> at_i < length d) then Fault
         else
           (let oldNext = next (d ! at_i)
            in if \<not> oldNext < length d then Fault
               else
                 (let d1 = d[n := (d ! n)\<lparr>prev := tmpo_index at_i, next := oldNext,
                                          flags := 0\<rparr>];
                      d2 = d1[at_i := (d1 ! at_i)\<lparr>next := tmpo_index n\<rparr>];
                      d3 = d2[oldNext := (d2 ! oldNext)\<lparr>prev := tmpo_index n\<rparr>]
                  in Ok (vertices\<lparr>data := d3, csize := n + 1\<rparr>))))"

text \<open>
  \<^verbatim>\<open>clipPolyLineIntersectionFactor\<close>: \<open>Some t\<close> is \<^verbatim>\<open>hit = 1\<close> with \<^verbatim>\<open>*t\<close> written,
  \<open>None\<close> is \<^verbatim>\<open>hit = 0\<close>.
\<close>

definition clipPolyLineIntersectionFactor ::
  "tmpo_vector \<Rightarrow> tmpo_vector \<Rightarrow> tmpo_vector \<Rightarrow> tmpo_vector \<Rightarrow> f32 option" where
  "clipPolyLineIntersectionFactor a aDir b bDir =
     (let cross = px aDir * py bDir - py aDir * px bDir
      in if cross < Fin 0.000001 \<or> cross > Fin 0.000001 then
           (let relx = px a - px b;
                rely = py a - py b
            in Some ((px bDir * rely - py bDir * relx) / cross))
         else None)"

fun clipPolyFindIntersectionIndex :: "nat \<Rightarrow> ClipVertices \<Rightarrow> nat \<Rightarrow> f32 \<Rightarrow> nat res" where
  "clipPolyFindIntersectionIndex 0 vertices at_i al = OutOfFuel"
| "clipPolyFindIntersectionIndex (Suc fuel) vertices at_i al =
     (if \<not> at_i < length (data vertices) then Fault
      else
        (let ref = data vertices ! at_i
         in if flags ref AND CVF_INTERSECT \<noteq> 0 \<and> alpha ref > al
            then clipPolyFindIntersectionIndex fuel vertices (prev ref) al
            else Ok at_i))"

definition clipPolyCreateIntersection ::
  "ClipVertices \<Rightarrow> nat \<Rightarrow> tmpo_vector \<Rightarrow> nat \<Rightarrow> f32 \<Rightarrow> ClipVertices res" where
  "clipPolyCreateIntersection vertices at_i intersection nb al =
     (case clipPolyCreateVertex vertices at_i of
        Ok v1 \<Rightarrow>
          (let n = csize vertices; d = data v1
           in Ok (v1\<lparr>data := d[n := (d ! n)\<lparr>pos := intersection,
                                              flags := flags (d ! n) OR CVF_INTERSECT,
                                              neighbor := tmpo_index nb,
                                              alpha := al\<rparr>]\<rparr>))
      | Fault \<Rightarrow> Fault
      | OutOfFuel \<Rightarrow> OutOfFuel)"

text \<open>
  The degeneracy push of \<^verbatim>\<open>clipPolyFindIntersections\<close>:
  \<^verbatim>\<open>v->x -= dir.y * 0.0001f; v->y += dir.x * 0.0001f;\<close> on the position of node \<open>k\<close>.
\<close>

definition push_vertex :: "ClipVertices \<Rightarrow> nat \<Rightarrow> tmpo_vector \<Rightarrow> ClipVertices" where
  "push_vertex vertices k dir =
     (let d = data vertices; v = pos (d ! k)
      in vertices\<lparr>data := d[k := (d ! k)\<lparr>pos :=
           \<lparr>px = px v - py dir * Fin 0.0001, py = py v + px dir * Fin 0.0001\<rparr>\<rparr>]\<rparr>)"

text \<open>
  Both loops of \<^verbatim>\<open>clipPolyFindIntersections\<close>, one step per unit of fuel: the outer
  loop's test and increment, or one pass through the inner loop's body. \<^verbatim>\<open>continue\<close>
  is the recursive call with \<open>i\<close>, \<open>j\<close> and both previous indices unchanged.
\<close>

fun clipPolyFindIntersections_loop ::
  "nat \<Rightarrow> ClipVertices \<Rightarrow> ClipVertices \<Rightarrow> nat \<Rightarrow> nat \<Rightarrow> nat \<Rightarrow> nat \<Rightarrow>
   (ClipVertices \<times> ClipVertices) res" where
  "clipPolyFindIntersections_loop 0 a b i j aPrevIndex bPrevIndex = OutOfFuel"
| "clipPolyFindIntersections_loop (Suc fuel) a b i j aPrevIndex bPrevIndex =
     (if \<not> i < originalSize a then Ok (a, b)
      else if \<not> j < originalSize b then
        clipPolyFindIntersections_loop fuel a b (i + 1) 0 i bPrevIndex
      else if \<not> (i < length (data a) \<and> aPrevIndex < length (data a) \<and>
                  j < length (data b) \<and> bPrevIndex < length (data b)) then Fault
      else
        (let aVertex = data a ! i;
             aCurrent = pos aVertex;
             aPrev = pos (data a ! aPrevIndex);
             bVertex = data b ! j;
             bCurrent = pos bVertex;
             bPrev = pos (data b ! bPrevIndex);
             aDir = \<lparr>px = px aCurrent - px aPrev, py = py aCurrent - py aPrev\<rparr>;
             bDir = \<lparr>px = px bCurrent - px bPrev, py = py bCurrent - py bPrev\<rparr>
         in case clipPolyLineIntersectionFactor aPrev aDir bPrev bDir of
              None \<Rightarrow> clipPolyFindIntersections_loop fuel a b i (j + 1) aPrevIndex j
            | Some aAlpha \<Rightarrow>
               (case clipPolyLineIntersectionFactor bPrev bDir aPrev aDir of
                  None \<Rightarrow> clipPolyFindIntersections_loop fuel a b i (j + 1) aPrevIndex j
                | Some bAlpha \<Rightarrow>
                   if \<not> (aAlpha \<ge> Fin 0 \<and> aAlpha \<le> Fin 1 \<and>
                          bAlpha \<ge> Fin 0 \<and> bAlpha \<le> Fin 1) then
                     clipPolyFindIntersections_loop fuel a b i (j + 1) aPrevIndex j
                   else if aAlpha \<le> Fin 0.00001 then
                     clipPolyFindIntersections_loop fuel (push_vertex a aPrevIndex bDir) b
                       i j aPrevIndex bPrevIndex
                   else if aAlpha \<ge> Fin 0.99999 then
                     clipPolyFindIntersections_loop fuel (push_vertex a i bDir) b
                       i j aPrevIndex bPrevIndex
                   else if bAlpha \<le> Fin 0.00001 then
                     clipPolyFindIntersections_loop fuel a (push_vertex b bPrevIndex aDir)
                       i j aPrevIndex bPrevIndex
                   else if bAlpha \<ge> Fin 0.99999 then
                     clipPolyFindIntersections_loop fuel a (push_vertex b j aDir)
                       i j aPrevIndex bPrevIndex
                   else
                     (let intersection = \<lparr>px = px aPrev + aAlpha * px aDir,
                                          py = py aPrev + aAlpha * py aDir\<rparr>
                      in case clipPolyFindIntersectionIndex fuel a (prev aVertex) aAlpha of
                           Fault \<Rightarrow> Fault
                         | OutOfFuel \<Rightarrow> OutOfFuel
                         | Ok aIndex \<Rightarrow>
                            (case clipPolyFindIntersectionIndex fuel b (prev bVertex) bAlpha of
                               Fault \<Rightarrow> Fault
                             | OutOfFuel \<Rightarrow> OutOfFuel
                             | Ok bIndex \<Rightarrow>
                                (let aNeighbor = csize b;
                                     bNeighbor = csize a
                                 in case clipPolyCreateIntersection a aIndex intersection
                                           aNeighbor aAlpha of
                                      Fault \<Rightarrow> Fault
                                    | OutOfFuel \<Rightarrow> OutOfFuel
                                    | Ok a1 \<Rightarrow>
                                       (case clipPolyCreateIntersection b bIndex intersection
                                               bNeighbor bAlpha of
                                          Fault \<Rightarrow> Fault
                                        | OutOfFuel \<Rightarrow> OutOfFuel
                                        | Ok b1 \<Rightarrow>
                                            clipPolyFindIntersections_loop fuel a1 b1
                                              i (j + 1) aPrevIndex j)))))))"

declare clipPolyFindIntersections_loop.simps [simp del]

definition clipPolyFindIntersections ::
  "nat \<Rightarrow> ClipVertices \<Rightarrow> ClipVertices \<Rightarrow> (ClipVertices \<times> ClipVertices) res" where
  "clipPolyFindIntersections fuel a b =
     clipPolyFindIntersections_loop fuel a b 0 0 (originalSize a - 1) (originalSize b - 1)"

subsection \<open>clipPolyMarkEntryExitPoints\<close>

text \<open>
  The loop of \<^verbatim>\<open>clipPolyPointInsidePoly\<close>; \<open>prevv\<close> is the local \<^verbatim>\<open>prev\<close>. The
  counter \<^verbatim>\<open>cn\<close> is \<^verbatim>\<open>unsigned\<close>; only its parity is used.
\<close>

function clipPolyPointInsidePoly_loop ::
  "ClipVertices \<Rightarrow> tmpo_vector \<Rightarrow> nat \<Rightarrow> nat \<Rightarrow> nat \<Rightarrow> bool res" where
  "clipPolyPointInsidePoly_loop poly p i prevIndex cn =
     (if i < originalSize poly then
        if \<not> (i < length (data poly) \<and> prevIndex < length (data poly)) then Fault
        else
          (let cur = pos (data poly ! i);
               prevv = pos (data poly ! prevIndex)
           in if (py p \<le> py prevv \<and> py p > py cur) \<or> (py p > py prevv \<and> py p \<le> py cur)
              then
                (let al = (py prevv - py p) / (py prevv - py cur);
                     xIntersection = px prevv + al * (px cur - px prevv)
                 in clipPolyPointInsidePoly_loop poly p (i + 1) i
                      (if px p < xIntersection then cn + 1 else cn))
              else clipPolyPointInsidePoly_loop poly p (i + 1) i cn)
      else Ok (cn mod 2 \<noteq> 0))"
  by pat_completeness auto
termination
  by (relation "measure (\<lambda>(poly, p, i, prevIndex, cn). originalSize poly - i)") auto

declare clipPolyPointInsidePoly_loop.simps [simp del]

definition clipPolyPointInsidePoly :: "ClipVertices \<Rightarrow> tmpo_vector \<Rightarrow> bool res" where
  "clipPolyPointInsidePoly poly p =
     clipPolyPointInsidePoly_loop poly p 0 (originalSize poly - 1) 0"

text \<open>\<^verbatim>\<open>entry->flags |= f\<close> on node \<open>k\<close>.\<close>

definition or_flags :: "ClipVertices \<Rightarrow> nat \<Rightarrow> 16 word \<Rightarrow> ClipVertices" where
  "or_flags vertices k f =
     vertices\<lparr>data := (data vertices)[k := (data vertices ! k)
        \<lparr>flags := flags (data vertices ! k) OR f\<rparr>]\<rparr>"

text \<open>The \<^verbatim>\<open>do ... while( i != 0 )\<close> loop of \<^verbatim>\<open>clipPolyMarkEntryExitPointsSingle\<close>.\<close>

fun clipPolyMarkEntryExitPointsSingle_loop ::
  "nat \<Rightarrow> ClipVertices \<Rightarrow> nat \<Rightarrow> bool \<Rightarrow> ClipVertices res" where
  "clipPolyMarkEntryExitPointsSingle_loop 0 current i inside = OutOfFuel"
| "clipPolyMarkEntryExitPointsSingle_loop (Suc fuel) current i inside =
     (if \<not> i < length (data current) then Fault
      else
        (let entry = data current ! i;
             isect = (flags entry AND CVF_INTERSECT \<noteq> 0);
             current1 = (if isect \<and> inside then or_flags current i CVF_EXIT else current);
             inside1 = (if isect then \<not> inside else inside);
             i1 = next entry
         in if i1 \<noteq> 0
            then clipPolyMarkEntryExitPointsSingle_loop fuel current1 i1 inside1
            else Ok current1))"

definition clipPolyMarkEntryExitPointsSingle ::
  "nat \<Rightarrow> ClipVertices \<Rightarrow> ClipVertices \<Rightarrow> ClipFollowDirection \<Rightarrow> ClipVertices res" where
  "clipPolyMarkEntryExitPointsSingle fuel current other dir =
     (if csize current > 0 then
        if \<not> 0 < length (data current) then Fault
        else
          (case clipPolyPointInsidePoly other (pos (data current ! 0)) of
             Fault \<Rightarrow> Fault
           | OutOfFuel \<Rightarrow> OutOfFuel
           | Ok ins \<Rightarrow>
               clipPolyMarkEntryExitPointsSingle_loop fuel current (next (data current ! 0))
                 (if dir \<noteq> CFD_FORWARD then \<not> ins else ins))
      else Ok current)"

definition clipPolyMarkEntryExitPoints ::
  "nat \<Rightarrow> ClipVertices \<Rightarrow> ClipVertices \<Rightarrow> ClipFollowDirection \<Rightarrow> ClipFollowDirection \<Rightarrow>
   (ClipVertices \<times> ClipVertices) res" where
  "clipPolyMarkEntryExitPoints fuel a b aDir bDir =
     (case clipPolyMarkEntryExitPointsSingle fuel a b aDir of
        Fault \<Rightarrow> Fault
      | OutOfFuel \<Rightarrow> OutOfFuel
      | Ok a1 \<Rightarrow>
         (case clipPolyMarkEntryExitPointsSingle fuel b a1 bDir of
            Fault \<Rightarrow> Fault
          | OutOfFuel \<Rightarrow> OutOfFuel
          | Ok b1 \<Rightarrow> Ok (a1, b1)))"

subsection \<open>clipPolyEmitClippedPolygons\<close>

text \<open>
  The locals of \<^verbatim>\<open>clipPolyEmitClippedPolygons\<close> that its loops change. The pointer
  \<^verbatim>\<open>currentVertices\<close> is one of the two rings (\<^verbatim>\<open>otherVertices\<close> is the other one);
  \<open>idx\<close> is \<^verbatim>\<open>i\<close>, and \<^verbatim>\<open>current\<close> is always node \<open>idx\<close> of the current ring;
  \<open>pool\<close> is the array \<^verbatim>\<open>vertices\<close>.
\<close>

datatype ring_side = SideA | SideB

record emit_state =
  ring_a :: ClipVertices
  ring_b :: ClipVertices
  currentVertices :: ring_side
  idx :: nat
  put :: nat
  polyCount :: nat
  currentPoly :: nat
  hasIntersections :: bool
  polygons :: "ClipPolygonEntry list"
  pool :: "tmpo_vector list"

datatype 'a flow = Go 'a | Return 'a

definition cur_ring :: "emit_state \<Rightarrow> ClipVertices" where
  "cur_ring st = (case currentVertices st of SideA \<Rightarrow> ring_a st | SideB \<Rightarrow> ring_b st)"

definition put_cur_ring :: "emit_state \<Rightarrow> ClipVertices \<Rightarrow> emit_state" where
  "put_cur_ring st r =
     (case currentVertices st of SideA \<Rightarrow> st\<lparr>ring_a := r\<rparr> | SideB \<Rightarrow> st\<lparr>ring_b := r\<rparr>)"

definition other_side :: "ring_side \<Rightarrow> ring_side" where
  "other_side s = (case s of SideA \<Rightarrow> SideB | SideB \<Rightarrow> SideA)"

text \<open>
  The two inner \<^verbatim>\<open>do ... while( !( current->flags & CVF_INTERSECT ) )\<close> loops: they
  differ in following \<^verbatim>\<open>prev\<close> (\<open>backward\<close>) or \<^verbatim>\<open>next\<close>. \<open>sz\<close> is the local
  \<^verbatim>\<open>size\<close>. \<open>Return\<close> is the \<^verbatim>\<open>return result\<close> on a full pool.
\<close>

fun emit_walk :: "nat \<Rightarrow> nat \<Rightarrow> bool \<Rightarrow> emit_state \<Rightarrow> emit_state flow res" where
  "emit_walk 0 sz backward st = OutOfFuel"
| "emit_walk (Suc fuel) sz backward st =
     (let r = cur_ring st
      in if \<not> idx st < length (data r) then Fault
         else
           (let i1 = (if backward then prev (data r ! idx st) else next (data r ! idx st))
            in if \<not> i1 < length (data r) then Fault
               else
                 (let r1 = or_flags r i1 CVF_PROCESSED;
                      st1 = put_cur_ring (st\<lparr>idx := i1\<rparr>) r1
                  in if put st + 1 > sz then Ok (Return st1)
                     else if \<not> put st < length (pool st) then Fault
                     else
                       (let st2 = st1\<lparr>pool := (pool st)[put st := pos (data r1 ! i1)],
                                      put := put st + 1\<rparr>
                        in if flags (data r1 ! i1) AND CVF_INTERSECT = 0
                           then emit_walk fuel sz backward st2
                           else Ok (Go st2)))))"

text \<open>
  The loop \<^verbatim>\<open>do ... while( i != start || currentVertices != startVertices )\<close> that
  traces one polygon.
\<close>

fun emit_trace ::
  "nat \<Rightarrow> nat \<Rightarrow> nat \<Rightarrow> ring_side \<Rightarrow> emit_state \<Rightarrow> emit_state flow res" where
  "emit_trace 0 sz start startVertices st = OutOfFuel"
| "emit_trace (Suc fuel) sz start startVertices st =
     (if \<not> idx st < length (data (cur_ring st)) then Fault
      else
        (case emit_walk fuel sz
                (flags (data (cur_ring st) ! idx st) AND CVF_EXIT \<noteq> 0) st of
           Fault \<Rightarrow> Fault
         | OutOfFuel \<Rightarrow> OutOfFuel
         | Ok (Return st1) \<Rightarrow> Ok (Return st1)
         | Ok (Go st1) \<Rightarrow>
            (let i1 = neighbor (data (cur_ring st1) ! idx st1);
                 st2 = st1\<lparr>idx := i1, currentVertices := other_side (currentVertices st1)\<rparr>
             in if \<not> i1 < length (data (cur_ring st2)) then Fault
                else
                  (let st3 = put_cur_ring st2 (or_flags (cur_ring st2) i1 CVF_PROCESSED)
                   in if i1 \<noteq> start \<or> currentVertices st3 \<noteq> startVertices
                      then emit_trace fuel sz start startVertices st3
                      else Ok (Go st3)))))"

text \<open>
  \<^verbatim>\<open>polygons[currentPoly].size = &vertices[put] - polygons[currentPoly].vertices\<close>,
  under \<^verbatim>\<open>if( currentPoly < polyCount )\<close>.
\<close>

definition finish_polygon :: "emit_state \<Rightarrow> emit_state res" where
  "finish_polygon st =
     (if currentPoly st < polyCount st then
        if \<not> currentPoly st < length (polygons st) then Fault
        else Ok (st\<lparr>polygons := (polygons st)[currentPoly st :=
                   (polygons st ! currentPoly st)
                     \<lparr>poly_size := put st - poly_vertices (polygons st ! currentPoly st)\<rparr>]\<rparr>)
      else Ok st)"

text \<open>
  \<^verbatim>\<open>currentPoly = polyCount++; polygons[currentPoly].vertices = &vertices[put];\<close>
  after the test \<^verbatim>\<open>polyCount + 1 > maxPolygons\<close>, whose \<^verbatim>\<open>return\<close> is \<open>Return\<close>.
\<close>

definition start_polygon :: "nat \<Rightarrow> emit_state \<Rightarrow> emit_state flow res" where
  "start_polygon maxPolygons st =
     (if polyCount st + 1 > maxPolygons then Ok (Return st)
      else if \<not> polyCount st < length (polygons st) then Fault
      else Ok (Go (st\<lparr>currentPoly := polyCount st, polyCount := polyCount st + 1,
                      polygons := (polygons st)[polyCount st :=
                        (polygons st ! polyCount st)\<lparr>poly_vertices := put st\<rparr>]\<rparr>)))"

text \<open>The outer \<^verbatim>\<open>while( i != 0 )\<close> loop.\<close>

fun emit_outer :: "nat \<Rightarrow> nat \<Rightarrow> nat \<Rightarrow> emit_state \<Rightarrow> emit_state flow res" where
  "emit_outer 0 maxPolygons sz st = OutOfFuel"
| "emit_outer (Suc fuel) maxPolygons sz st =
     (if idx st = 0 then Ok (Go st)
      else if \<not> idx st < length (data (cur_ring st)) then Fault
      else if flags (data (cur_ring st) ! idx st) AND (CVF_INTERSECT OR CVF_PROCESSED)
              = CVF_INTERSECT then
        (case finish_polygon
                ((put_cur_ring st (or_flags (cur_ring st) (idx st) CVF_PROCESSED))
                   \<lparr>hasIntersections := True\<rparr>) of
           Fault \<Rightarrow> Fault
         | OutOfFuel \<Rightarrow> OutOfFuel
         | Ok st1 \<Rightarrow>
            (case start_polygon maxPolygons st1 of
               Fault \<Rightarrow> Fault
             | OutOfFuel \<Rightarrow> OutOfFuel
             | Ok (Return st2) \<Rightarrow> Ok (Return st2)
             | Ok (Go st2) \<Rightarrow>
                (case emit_trace fuel sz (idx st) (currentVertices st) st2 of
                   Fault \<Rightarrow> Fault
                 | OutOfFuel \<Rightarrow> OutOfFuel
                 | Ok (Return st3) \<Rightarrow> Ok (Return st3)
                 | Ok (Go st3) \<Rightarrow>
                     if \<not> idx st3 < length (data (cur_ring st3)) then Fault
                     else emit_outer fuel maxPolygons sz
                            (st3\<lparr>idx := next (data (cur_ring st3) ! idx st3)\<rparr>))))
      else emit_outer fuel maxPolygons sz
             (st\<lparr>idx := next (data (cur_ring st) ! idx st)\<rparr>))"

text \<open>\<^verbatim>\<open>for( j = 0; j < size; ++j ) vertices[j] = ring->data[j].pos;\<close>\<close>

fun copy_positions :: "nat \<Rightarrow> ClipVertex list \<Rightarrow> tmpo_vector list \<Rightarrow> tmpo_vector list" where
  "copy_positions 0 d vertices = vertices"
| "copy_positions (Suc n) d vertices = (copy_positions n d vertices)[n := pos (d ! n)]"

text \<open>
  One branch of the containment fallback: the whole original loop of \<open>ring\<close> becomes one
  polygon, cut to the pool's size.
\<close>

definition emit_whole :: "nat \<Rightarrow> nat \<Rightarrow> ClipVertices \<Rightarrow> emit_state \<Rightarrow> emit_state flow res" where
  "emit_whole maxPolygons sz ring st =
     (case start_polygon maxPolygons st of
        Fault \<Rightarrow> Fault
      | OutOfFuel \<Rightarrow> OutOfFuel
      | Ok (Return st1) \<Rightarrow> Ok (Return st1)
      | Ok (Go st1) \<Rightarrow>
         (let sz1 = (if sz > originalSize ring then originalSize ring else sz)
          in if sz1 > length (pool st1) \<or> sz1 > length (data ring) then Fault
             else Ok (Go (st1\<lparr>pool := copy_positions sz1 (data ring) (pool st1),
                             put := sz1\<rparr>))))"

text \<open>The \<^verbatim>\<open>if( !hasIntersections )\<close> block.\<close>

definition emit_fallback :: "nat \<Rightarrow> nat \<Rightarrow> emit_state \<Rightarrow> emit_state flow res" where
  "emit_fallback maxPolygons sz st =
     (if \<not> hasIntersections st then
        if \<not> 0 < length (data (ring_a st)) then Fault
        else
          (case clipPolyPointInsidePoly (ring_b st) (pos (data (ring_a st) ! 0)) of
             Fault \<Rightarrow> Fault
           | OutOfFuel \<Rightarrow> OutOfFuel
           | Ok True \<Rightarrow> emit_whole maxPolygons sz (ring_a st) st
           | Ok False \<Rightarrow>
               if csize (ring_b st) \<noteq> 0 then
                 if \<not> 0 < length (data (ring_b st)) then Fault
                 else
                   (case clipPolyPointInsidePoly (ring_a st) (pos (data (ring_b st) ! 0)) of
                      Fault \<Rightarrow> Fault
                    | OutOfFuel \<Rightarrow> OutOfFuel
                    | Ok True \<Rightarrow> emit_whole maxPolygons sz (ring_b st) st
                    | Ok False \<Rightarrow> Ok (Go st))
               else Ok (Go st))
      else Ok (Go st))"

text \<open>
  \<^verbatim>\<open>result.polygons = (tmpo_size_t)polyCount; result.vertices = (tmpo_index)put;\<close>
\<close>

definition emit_result :: "emit_state \<Rightarrow> ClipPolyResult" where
  "emit_result st = \<lparr>r_polygons = polyCount st, r_vertices = tmpo_index (put st)\<rparr>"

text \<open>
  The result is the returned struct and what the function leaves in the two rings, in
  \<^verbatim>\<open>polygons\<close> and in \<^verbatim>\<open>vertices\<close>.
\<close>

definition emit_output ::
  "emit_state \<Rightarrow>
   ClipPolyResult \<times> ClipVertices \<times> ClipVertices \<times> ClipPolygonEntry list \<times> tmpo_vector list" where
  "emit_output st = (emit_result st, ring_a st, ring_b st, polygons st, pool st)"

definition clipPolyEmitClippedPolygons ::
  "nat \<Rightarrow> ClipVertices \<Rightarrow> ClipVertices \<Rightarrow> ClipPolygonEntry list \<Rightarrow> nat \<Rightarrow>
   tmpo_vector list \<Rightarrow> nat \<Rightarrow>
   (ClipPolyResult \<times> ClipVertices \<times> ClipVertices \<times> ClipPolygonEntry list \<times>
    tmpo_vector list) res" where
  "clipPolyEmitClippedPolygons fuel a b polys maxPolygons vertices maxCount =
     (if csize a < 1 then
        Ok (\<lparr>r_polygons = 0, r_vertices = 0\<rparr>, a, b, polys, vertices)
      else if \<not> 0 < length (data a) then Fault
      else
        (case emit_outer fuel maxPolygons maxCount
                \<lparr>ring_a = a, ring_b = b, currentVertices = SideA,
                 idx = next (data a ! 0), put = 0, polyCount = 0, currentPoly = 1,
                 hasIntersections = False, polygons = polys, pool = vertices\<rparr> of
           Fault \<Rightarrow> Fault
         | OutOfFuel \<Rightarrow> OutOfFuel
         | Ok (Return st1) \<Rightarrow> Ok (emit_output st1)
         | Ok (Go st1) \<Rightarrow>
            (case emit_fallback maxPolygons maxCount st1 of
               Fault \<Rightarrow> Fault
             | OutOfFuel \<Rightarrow> OutOfFuel
             | Ok (Return st2) \<Rightarrow> Ok (emit_output st2)
             | Ok (Go st2) \<Rightarrow>
                (case finish_polygon st2 of
                   Fault \<Rightarrow> Fault
                 | OutOfFuel \<Rightarrow> OutOfFuel
                 | Ok st3 \<Rightarrow> Ok (emit_output st3)))))"

text \<open>
  \<^verbatim>\<open>clipPolyEmitClippedPolygon\<close>: one entry, initialised with \<^verbatim>\<open>{0}\<close>; the result
  is the entry's size and the pool.
\<close>

definition clipPolyEmitClippedPolygon ::
  "nat \<Rightarrow> ClipVertices \<Rightarrow> ClipVertices \<Rightarrow> tmpo_vector list \<Rightarrow> nat \<Rightarrow>
   (nat \<times> tmpo_vector list) res" where
  "clipPolyEmitClippedPolygon fuel a b vertices maxCount =
     (case clipPolyEmitClippedPolygons fuel a b [\<lparr>poly_vertices = 0, poly_size = 0\<rparr>] 1
             vertices maxCount of
        Fault \<Rightarrow> Fault
      | OutOfFuel \<Rightarrow> OutOfFuel
      | Ok (r, a1, b1, polys1, vertices1) \<Rightarrow> Ok (poly_size (polys1 ! 0), vertices1))"

subsection \<open>The documented call sequence\<close>

text \<open>
  The header's usage notes: transform both polygons, find the intersections, mark entry
  and exit points, emit. \<open>clipPolygons_prepare\<close> runs the first two steps on two
  vertex arrays, each ring in a zeroed slab of \<open>cap\<close> entries, \<open>clipPolygons_emit\<close>
  the last two, and \<open>clipPolygons\<close> all of them.
\<close>

definition bind_res :: "'a res \<Rightarrow> ('a \<Rightarrow> 'b res) \<Rightarrow> 'b res" where
  "bind_res r f = (case r of Ok v \<Rightarrow> f v | Fault \<Rightarrow> Fault | OutOfFuel \<Rightarrow> OutOfFuel)"

definition clipPolygons_prepare ::
  "nat \<Rightarrow> tmpo_vector list \<Rightarrow> tmpo_vector list \<Rightarrow> nat \<Rightarrow> (ClipVertices \<times> ClipVertices) res" where
  "clipPolygons_prepare fuel va vb cap =
     bind_res (clipPolyTransformData va (length va) (replicate cap zero_ClipVertex) cap)
       (\<lambda>a. bind_res (clipPolyTransformData vb (length vb) (replicate cap zero_ClipVertex) cap)
         (\<lambda>b. clipPolyFindIntersections fuel a b))"

definition clipPolygons_emit ::
  "nat \<Rightarrow> ClipVertices \<Rightarrow> ClipVertices \<Rightarrow> ClipFollowDirection \<Rightarrow> ClipFollowDirection \<Rightarrow>
   ClipPolygonEntry list \<Rightarrow> nat \<Rightarrow> tmpo_vector list \<Rightarrow> nat \<Rightarrow>
   (ClipPolyResult \<times> ClipVertices \<times> ClipVertices \<times> ClipPolygonEntry list \<times>
    tmpo_vector list) res" where
  "clipPolygons_emit fuel a b aDir bDir polys maxPolygons vertices maxCount =
     bind_res (clipPolyMarkEntryExitPoints fuel a b aDir bDir)
       (\<lambda>(a2, b2). clipPolyEmitClippedPolygons fuel a2 b2 polys maxPolygons vertices maxCount)"

definition clipPolygons ::
  "nat \<Rightarrow> tmpo_vector list \<Rightarrow> tmpo_vector list \<Rightarrow> nat \<Rightarrow>
   ClipFollowDirection \<Rightarrow> ClipFollowDirection \<Rightarrow>
   ClipPolygonEntry list \<Rightarrow> nat \<Rightarrow> tmpo_vector list \<Rightarrow> nat \<Rightarrow>
   (ClipPolyResult \<times> ClipVertices \<times> ClipVertices \<times> ClipPolygonEntry list \<times>
    tmpo_vector list) res" where
  "clipPolygons fuel va vb cap aDir bDir polys maxPolygons vertices maxCount =
     bind_res (clipPolygons_prepare fuel va vb cap)
       (\<lambda>(a, b). clipPolygons_emit fuel a b aDir bDir polys maxPolygons vertices maxCount)"

subsection \<open>Notions used in the statements\<close>

definition vec :: "real \<Rightarrow> real \<Rightarrow> tmpo_vector" where
  "vec a b = \<lparr>px = Fin a, py = Fin b\<rparr>"



text \<open>A node with \<^verbatim>\<open>flags & CVF_INTERSECT\<close>.\<close>

definition is_intersection :: "ClipVertex \<Rightarrow> bool" where
  "is_intersection v = (flags v AND CVF_INTERSECT \<noteq> 0)"


text \<open>
  The original vertices are a prefix of the populated part, none of them is an
  intersection node, and every index of the slab fits \<^verbatim>\<open>tmpo_index\<close>.
\<close>

definition originals_plain :: "ClipVertices \<Rightarrow> bool" where
  "originals_plain r =
     (originalSize r \<le> csize r \<and> length (data r) \<le> 65536 \<and>
      (\<forall>v < originalSize r. \<not> is_intersection (data r ! v)))"


text \<open>The two overlapping unit squares of the spec's scenarios.\<close>

definition square_a :: "tmpo_vector list" where
  "square_a = [vec 0 0, vec 1 0, vec 1 1, vec 0 1]"

definition square_b :: "tmpo_vector list" where
  "square_b = [vec (1/2) (1/2), vec (3/2) (1/2), vec (3/2) (3/2), vec (1/2) (3/2)]"

text \<open>What a caller sees of a result: the ring sizes, and the emitted output.\<close>

definition ring_sizes :: "(ClipVertices \<times> ClipVertices) res \<Rightarrow> (nat \<times> nat) res" where
  "ring_sizes r = bind_res r (\<lambda>(a, b). Ok (csize a, csize b))"

definition emitted ::
  "(ClipPolyResult \<times> ClipVertices \<times> ClipVertices \<times> ClipPolygonEntry list \<times>
    tmpo_vector list) res \<Rightarrow>
   (ClipPolyResult \<times> ClipPolygonEntry list \<times> tmpo_vector list) res" where
  "emitted r = bind_res r (\<lambda>(result, a, b, polys, vertices). Ok (result, polys, vertices))"

text \<open>Two overlapping squares of side \<open>2^-10\<close>.\<close>

definition small_square_a :: "tmpo_vector list" where
  "small_square_a = [vec 0 0, vec (1/1024) 0, vec (1/1024) (1/1024), vec 0 (1/1024)]"

definition small_square_b :: "tmpo_vector list" where
  "small_square_b = [vec (1/2048) (1/2048), vec (3/2048) (1/2048), vec (3/2048) (3/2048),
                     vec (1/2048) (3/2048)]"


fun plain_upto :: "nat \<Rightarrow> ClipVertices \<Rightarrow> bool" where
  "plain_upto 0 r = True"
| "plain_upto (Suc k) r =
     (plain_upto k r \<and> \<not> is_intersection (data r ! k) \<and>
      next (data r ! k) = (if k + 1 = csize r then 0 else k + 1))"








text \<open>
  The populated part of a slab is a doubly linked ring: \<^verbatim>\<open>next\<close> and \<^verbatim>\<open>prev\<close> stay inside it
  and undo each other.
\<close>

definition ring_links :: "ClipVertices \<Rightarrow> bool" where
  "ring_links r =
     (\<forall>v < csize r. next (data r ! v) < csize r \<and> prev (data r ! v) < csize r \<and>
        prev (data r ! next (data r ! v)) = v \<and> next (data r ! prev (data r ! v)) = v)"

text \<open>Intersection nodes carry a finite \<^verbatim>\<open>alpha\<close>.\<close>

definition alphas_finite :: "ClipVertices \<Rightarrow> bool" where
  "alphas_finite r =
     (\<forall>v < csize r. is_intersection (data r ! v) \<longrightarrow> is_finite (alpha (data r ! v)))"

text \<open>
  Two intersection nodes that follow each other in the ring lie on the same original edge
  (original vertices separate the edges); \<^verbatim>\<open>alpha\<close> does not decrease from the first to
  the second.
\<close>

definition alphas_ascending :: "ClipVertices \<Rightarrow> bool" where
  "alphas_ascending r =
     (\<forall>v < csize r. is_intersection (data r ! v) \<and>
                      is_intersection (data r ! next (data r ! v)) \<longrightarrow>
        alpha (data r ! v) \<le> alpha (data r ! next (data r ! v)))"

text \<open>The invariant of one ring during intersection finding, and of both.\<close>

definition ring_wf :: "ClipVertices \<Rightarrow> bool" where
  "ring_wf r = (originals_plain r \<and> csize r \<le> length (data r) \<and> ring_links r \<and>
                alphas_finite r \<and> alphas_ascending r)"

definition rings_wf :: "ClipVertices \<Rightarrow> ClipVertices \<Rightarrow> bool" where
  "rings_wf a b = (ring_wf a \<and> ring_wf b)"

text \<open>
  A triangle and a simple octagon. The octagon has two disjoint edges on the line \<open>x = 2\<close>
  and an edge of length 1024 on \<open>y = 4\<close> through the triangle's vertex \<open>(4, 4)\<close>.
\<close>

definition alpha_tie_a :: "tmpo_vector list" where
  "alpha_tie_a = [vec 4 4, vec 4 (-4), vec 0 0]"

definition alpha_tie_b :: "tmpo_vector list" where
  "alpha_tie_b = [vec 2 1, vec 2 (65/32), vec 3 4, vec 1027 4, vec 1027 5, vec 2 5,
                  vec 2 (261/128), vec 1 (261/128)]"

section \<open>Properties\<close>

subsection \<open>Evaluation on numerals\<close>

named_theorems evals

lemma replicate_numeral [evals]: "replicate (numeral k) v = v # replicate (pred_numeral k) v"
  by (simp add: numeral_eq_Suc)

lemma list_update_numeral [evals]: "(v # vs)[numeral k := w] = v # vs[pred_numeral k := w]"
  by (simp add: numeral_eq_Suc)

lemmas fuel_numeral [evals] =
  clipPolyFindIntersections_loop.simps(2) [of "pred_numeral k" for k, folded numeral_eq_Suc]
  clipPolyFindIntersectionIndex.simps(2) [of "pred_numeral k" for k, folded numeral_eq_Suc]
  clipPolyMarkEntryExitPointsSingle_loop.simps(2)
    [of "pred_numeral k" for k, folded numeral_eq_Suc]
  emit_walk.simps(2) [of "pred_numeral k" for k, folded numeral_eq_Suc]
  emit_trace.simps(2) [of "pred_numeral k" for k, folded numeral_eq_Suc]
  emit_outer.simps(2) [of "pred_numeral k" for k, folded numeral_eq_Suc]
  fill_queryList.simps(2) [of "pred_numeral k" for k, folded numeral_eq_Suc]
  copy_positions.simps(2) [of "pred_numeral k" for k, folded numeral_eq_Suc]

lemmas model_defs [evals] =
  Let_def tmpo_index_def zero_ClipVertex_def vec_def bind_res_def
  CVF_INTERSECT_def CVF_EXIT_def CVF_PROCESSED_def TMPO_CLOCKWISE_TRIANGLES_def
  isPolygonClockwise_def shoelace_def isPolygonClockwise_loop.simps
  isTriangleClockwise_def pointInsideTriangle_def isTriangleEar_def isTriangleEar_loop.simps
  memmove_down_def triangulate_loop.simps triangulatePolygonEarClipping_def
  clipPolyTransformData_def clipPolyTransformData_loop.simps
  clipPolyFindIntersections_def clipPolyFindIntersections_loop.simps
  clipPolyLineIntersectionFactor_def clipPolyCreateIntersection_def clipPolyCreateVertex_def
  push_vertex_def clipPolyPointInsidePoly_def clipPolyPointInsidePoly_loop.simps or_flags_def
  clipPolyMarkEntryExitPointsSingle_def clipPolyMarkEntryExitPoints_def
  cur_ring_def put_cur_ring_def other_side_def finish_polygon_def start_polygon_def
  emit_whole_def emit_fallback_def emit_result_def emit_output_def
  clipPolyEmitClippedPolygons_def clipPolyEmitClippedPolygon_def
  clipPolygons_prepare_def clipPolygons_emit_def clipPolygons_def

subsection \<open>Orientation\<close>










subsection \<open>Emission from an empty ring\<close>

text \<open>
  C10: when ring \<open>a\<close> is empty (\<^verbatim>\<open>a->size < 1\<close>) the result is \<open>{0, 0}\<close>, whatever
  ring \<open>b\<close> holds and with no fuel at all, and the polygon array and the vertex pool are
  returned as they were passed.
\<close>

theorem clipPolyEmitClippedPolygons_empty:
  "csize a < 1 \<Longrightarrow>
   clipPolyEmitClippedPolygons fuel a b polys maxPolygons vertices maxCount =
     Ok (\<lparr>r_polygons = 0, r_vertices = 0\<rparr>, a, b, polys, vertices)"
  by (simp add: clipPolyEmitClippedPolygons_def)

theorem clipPolyEmitClippedPolygons_empty_witness:
  "csize \<lparr>data = [], originalSize = 0, csize = 0, capacity = 0\<rparr> < 1 \<and>
   clipPolyEmitClippedPolygons 0 \<lparr>data = [], originalSize = 0, csize = 0, capacity = 0\<rparr>
     \<lparr>data = [zero_ClipVertex], originalSize = 1, csize = 1, capacity = 1\<rparr>
     [\<lparr>poly_vertices = 7, poly_size = 7\<rparr>] 1 [vec 3 3] 1 =
     Ok (\<lparr>r_polygons = 0, r_vertices = 0\<rparr>,
         \<lparr>data = [], originalSize = 0, csize = 0, capacity = 0\<rparr>,
         \<lparr>data = [zero_ClipVertex], originalSize = 1, csize = 1, capacity = 1\<rparr>,
         [\<lparr>poly_vertices = 7, poly_size = 7\<rparr>], [vec 3 3])"
  using clipPolyEmitClippedPolygons_empty
    [of "\<lparr>data = [], originalSize = 0, csize = 0, capacity = 0\<rparr>" 0
        "\<lparr>data = [zero_ClipVertex], originalSize = 1, csize = 1, capacity = 1\<rparr>"
        "[\<lparr>poly_vertices = 7, poly_size = 7\<rparr>]" 1 "[vec 3 3]" 1]
  by simp

subsection \<open>Intersection finding: neighbour links\<close>

lemma push_vertex_sizes [simp]:
  "originalSize (push_vertex r k d) = originalSize r"
  "csize (push_vertex r k d) = csize r"
  "capacity (push_vertex r k d) = capacity r"
  "length (data (push_vertex r k d)) = length (data r)"
  by (simp_all add: push_vertex_def Let_def)

lemma clipPolyCreateIntersection_sizes:
  assumes "clipPolyCreateIntersection r k p nb al = Ok r1"
  shows "originalSize r1 = originalSize r" "csize r1 = csize r + 1"
        "length (data r1) = length (data r)" "csize r < length (data r)"
        "capacity r1 = capacity r"
  using assms
  by (auto simp: clipPolyCreateIntersection_def clipPolyCreateVertex_def Let_def
           split: res.splits if_splits)

lemma find_loop_invariant:
  assumes run: "clipPolyFindIntersections_loop fuel a b i j ap bp = Ok (a', b')"
    and P: "P a b"
    and idx: "0 < originalSize a \<longrightarrow> ap < originalSize a" "0 < originalSize b \<longrightarrow> bp < originalSize b"
    and push_a: "\<And>a b k d. \<lbrakk>P a b; k < originalSize a; k < length (data a)\<rbrakk> \<Longrightarrow> P (push_vertex a k d) b"
    and push_b: "\<And>a b k d. \<lbrakk>P a b; k < originalSize b; k < length (data b)\<rbrakk> \<Longrightarrow> P a (push_vertex b k d)"
    and ins: "\<And>a b i j aAlpha bAlpha aIndex bIndex p a1 b1 fuel.
        \<lbrakk>P a b; i < originalSize a; j < originalSize b;
         i < length (data a); j < length (data b);
         aAlpha \<ge> Fin 0; aAlpha \<le> Fin 1; bAlpha \<ge> Fin 0; bAlpha \<le> Fin 1;
         clipPolyFindIntersectionIndex fuel a (prev (data a ! i)) aAlpha = Ok aIndex;
         clipPolyFindIntersectionIndex fuel b (prev (data b ! j)) bAlpha = Ok bIndex;
         clipPolyCreateIntersection a aIndex p (csize b) aAlpha = Ok a1;
         clipPolyCreateIntersection b bIndex p (csize a) bAlpha = Ok b1\<rbrakk> \<Longrightarrow> P a1 b1"
  shows "P a' b'"
  using run P idx
proof (induction fuel arbitrary: a b i j ap bp)
  case 0
  then show ?case by (simp add: clipPolyFindIntersections_loop.simps)
next
  case (Suc fuel)
  note IH = Suc.IH
  note run = Suc.prems(1)
  note Pab = Suc.prems(2)
  note ia = Suc.prems(3)
  note ib = Suc.prems(4)
  show ?case
  proof (cases "i < originalSize a")
    case False
    then show ?thesis using run Pab by (simp add: clipPolyFindIntersections_loop.simps)
  next
    case iA: True
    show ?thesis
    proof (cases "j < originalSize b")
      case False
      then have "clipPolyFindIntersections_loop fuel a b (i + 1) 0 i bp = Ok (a', b')"
        using run iA by (simp add: clipPolyFindIntersections_loop.simps)
      then show ?thesis using IH [OF _ Pab, of "i + 1" 0 i bp] iA ib by simp
    next
      case jB: True
      have apA: "ap < originalSize a" and bpB: "bp < originalSize b" using iA jB ia ib by auto
      have bnd: "i < length (data a)" "ap < length (data a)" "j < length (data b)" "bp < length (data b)"
        using run iA jB by (auto simp: clipPolyFindIntersections_loop.simps split: if_splits)
      have adv: "clipPolyFindIntersections_loop fuel a b i (Suc j) ap j = Ok (a', b') \<Longrightarrow> P a' b'"
        using IH [OF _ Pab, of i "Suc j" ap j] ia jB by simp
      have pa1: "\<And>d. clipPolyFindIntersections_loop fuel (push_vertex a ap d) b i j ap bp = Ok (a', b') \<Longrightarrow> P a' b'"
        using IH [OF _ push_a [OF Pab apA bnd(2)], of _ i j ap bp] ia ib by simp
      have pa2: "\<And>d. clipPolyFindIntersections_loop fuel (push_vertex a i d) b i j ap bp = Ok (a', b') \<Longrightarrow> P a' b'"
        using IH [OF _ push_a [OF Pab iA bnd(1)], of _ i j ap bp] ia ib by simp
      have pb1: "\<And>d. clipPolyFindIntersections_loop fuel a (push_vertex b bp d) i j ap bp = Ok (a', b') \<Longrightarrow> P a' b'"
        using IH [OF _ push_b [OF Pab bpB bnd(4)], of _ i j ap bp] ia ib by simp
      have pb2: "\<And>d. clipPolyFindIntersections_loop fuel a (push_vertex b j d) i j ap bp = Ok (a', b') \<Longrightarrow> P a' b'"
        using IH [OF _ push_b [OF Pab jB bnd(3)], of _ i j ap bp] ia ib by simp
      have insr: "\<And>aAlpha bAlpha aIndex bIndex p a1 b1.
        \<lbrakk>aAlpha \<ge> Fin 0; aAlpha \<le> Fin 1; bAlpha \<ge> Fin 0; bAlpha \<le> Fin 1;
         clipPolyFindIntersectionIndex fuel a (prev (data a ! i)) aAlpha = Ok aIndex;
         clipPolyFindIntersectionIndex fuel b (prev (data b ! j)) bAlpha = Ok bIndex;
         clipPolyCreateIntersection a aIndex p (csize b) aAlpha = Ok a1;
         clipPolyCreateIntersection b bIndex p (csize a) bAlpha = Ok b1;
         clipPolyFindIntersections_loop fuel a1 b1 i (Suc j) ap j = Ok (a', b')\<rbrakk> \<Longrightarrow> P a' b'"
      proof -
        fix aAlpha bAlpha aIndex bIndex p a1 b1
        assume h: "aAlpha \<ge> Fin 0" "aAlpha \<le> Fin 1" "bAlpha \<ge> Fin 0" "bAlpha \<le> Fin 1"
         "clipPolyFindIntersectionIndex fuel a (prev (data a ! i)) aAlpha = Ok aIndex"
         "clipPolyFindIntersectionIndex fuel b (prev (data b ! j)) bAlpha = Ok bIndex"
         "clipPolyCreateIntersection a aIndex p (csize b) aAlpha = Ok a1"
         "clipPolyCreateIntersection b bIndex p (csize a) bAlpha = Ok b1"
         and r: "clipPolyFindIntersections_loop fuel a1 b1 i (Suc j) ap j = Ok (a', b')"
        have P1: "P a1 b1"
          using ins [OF Pab iA jB bnd(1) bnd(3) h] .
        have o: "originalSize a1 = originalSize a" "originalSize b1 = originalSize b"
          using clipPolyCreateIntersection_sizes h by auto
        show "P a' b'"
          using IH [OF r P1] ia jB o by simp
      qed
      show ?thesis
        using run iA jB bnd
        apply (simp add: clipPolyFindIntersections_loop.simps(2) [of fuel a b i j ap bp] Let_def split: option.splits if_splits res.splits)
        using adv pa1 pa2 pb1 pb2 insr
        apply blast+
        done
    qed
  qed
qed

lemma clipPolyCreateVertex_nodes:
  assumes "clipPolyCreateVertex r k = Ok r1"
  shows "flags (data r1 ! csize r) = 0"
        "v \<noteq> csize r \<Longrightarrow> flags (data r1 ! v) = flags (data r ! v)"
        "pos (data r1 ! v) = pos (data r ! v)"
        "neighbor (data r1 ! v) = neighbor (data r ! v)"
        "alpha (data r1 ! v) = alpha (data r ! v)"
        "length (data r1) = length (data r)" "csize r < length (data r)"
        "csize r1 = csize r + 1" "originalSize r1 = originalSize r" "capacity r1 = capacity r"
proof -
  let ?d = "data r" and ?n = "csize r"
  from assms have b: "?n < length ?d" "k < length ?d" "next (?d ! k) < length ?d"
    by (auto simp: clipPolyCreateVertex_def Let_def split: if_splits)
  define d1 where "d1 = ?d[?n := (?d ! ?n)\<lparr>prev := tmpo_index k, next := next (?d ! k), flags := 0\<rparr>]"
  define d2 where "d2 = d1[k := (d1 ! k)\<lparr>next := tmpo_index ?n\<rparr>]"
  define d3 where "d3 = d2[next (?d ! k) := (d2 ! next (?d ! k))\<lparr>prev := tmpo_index ?n\<rparr>]"
  have r1: "r1 = r\<lparr>data := d3, csize := ?n + 1\<rparr>"
    using assms b by (simp add: clipPolyCreateVertex_def Let_def d1_def d2_def d3_def)
  have l: "length d1 = length ?d" "length d2 = length ?d" "length d3 = length ?d"
    by (simp_all add: d1_def d2_def d3_def)
  have f1: "\<And>v. flags (d1 ! v) = (if v = ?n then 0 else flags (?d ! v))"
    using b by (simp add: d1_def nth_list_update)
  have f2: "\<And>v. flags (d2 ! v) = flags (d1 ! v)"
    using b l by (simp add: d2_def nth_list_update)
  have f3: "\<And>v. flags (d3 ! v) = flags (d2 ! v)"
    using b l by (simp add: d3_def nth_list_update)
  have p1: "\<And>v. pos (d1 ! v) = pos (?d ! v) \<and> neighbor (d1 ! v) = neighbor (?d ! v) \<and> alpha (d1 ! v) = alpha (?d ! v)"
    using b by (simp add: d1_def nth_list_update)
  have p2: "\<And>v. pos (d2 ! v) = pos (d1 ! v) \<and> neighbor (d2 ! v) = neighbor (d1 ! v) \<and> alpha (d2 ! v) = alpha (d1 ! v)"
    using b l by (simp add: d2_def nth_list_update)
  have p3: "\<And>v. pos (d3 ! v) = pos (d2 ! v) \<and> neighbor (d3 ! v) = neighbor (d2 ! v) \<and> alpha (d3 ! v) = alpha (d2 ! v)"
    using b l by (simp add: d3_def nth_list_update)
  show "flags (data r1 ! csize r) = 0" by (simp add: r1 f1 f2 f3)
  show "v \<noteq> csize r \<Longrightarrow> flags (data r1 ! v) = flags (data r ! v)" by (simp add: r1 f1 f2 f3)
  show "pos (data r1 ! v) = pos (data r ! v)" by (simp add: r1 p1 p2 p3)
  show "neighbor (data r1 ! v) = neighbor (data r ! v)" by (simp add: r1 p1 p2 p3)
  show "alpha (data r1 ! v) = alpha (data r ! v)" by (simp add: r1 p1 p2 p3)
  show "length (data r1) = length (data r)" by (simp add: r1 l)
  show "csize r < length (data r)" by (rule b)
  show "csize r1 = csize r + 1" "originalSize r1 = originalSize r" "capacity r1 = capacity r"
    by (simp_all add: r1)
qed

lemma clipPolyCreateIntersection_nodes:
  assumes "clipPolyCreateIntersection r k p nb al = Ok r1"
  shows "pos (data r1 ! csize r) = p" "flags (data r1 ! csize r) = CVF_INTERSECT"
        "neighbor (data r1 ! csize r) = tmpo_index nb" "alpha (data r1 ! csize r) = al"
        "v \<noteq> csize r \<Longrightarrow> pos (data r1 ! v) = pos (data r ! v)"
        "v \<noteq> csize r \<Longrightarrow> flags (data r1 ! v) = flags (data r ! v)"
        "v \<noteq> csize r \<Longrightarrow> neighbor (data r1 ! v) = neighbor (data r ! v)"
        "v \<noteq> csize r \<Longrightarrow> alpha (data r1 ! v) = alpha (data r ! v)"
proof -
  from assms obtain r0 where r0: "clipPolyCreateVertex r k = Ok r0"
    and r1: "r1 = r0\<lparr>data := (data r0)[csize r := (data r0 ! csize r)\<lparr>pos := p,
              flags := flags (data r0 ! csize r) OR CVF_INTERSECT,
              neighbor := tmpo_index nb, alpha := al\<rparr>]\<rparr>"
    by (auto simp: clipPolyCreateIntersection_def Let_def split: res.splits)
  note n0 = clipPolyCreateVertex_nodes [OF r0]
  have lt: "csize r < length (data r0)" using n0(6,7) by simp
  show "pos (data r1 ! csize r) = p" "flags (data r1 ! csize r) = CVF_INTERSECT"
        "neighbor (data r1 ! csize r) = tmpo_index nb" "alpha (data r1 ! csize r) = al"
    using lt n0(1) by (simp_all add: r1)
  show "v \<noteq> csize r \<Longrightarrow> pos (data r1 ! v) = pos (data r ! v)"
        "v \<noteq> csize r \<Longrightarrow> flags (data r1 ! v) = flags (data r ! v)"
        "v \<noteq> csize r \<Longrightarrow> neighbor (data r1 ! v) = neighbor (data r ! v)"
        "v \<noteq> csize r \<Longrightarrow> alpha (data r1 ! v) = alpha (data r ! v)"
    using n0 by (simp_all add: r1)
qed

lemma nth_list_update_if:
  "xs[i := v] ! j = (if i = j \<and> i < length xs then v else xs ! j)"
  by (cases "i < length xs") (simp_all add: nth_list_update list_update_beyond)

lemma push_vertex_nodes:
  "flags (data (push_vertex r k d) ! v) = flags (data r ! v)"
  "neighbor (data (push_vertex r k d) ! v) = neighbor (data r ! v)"
  "alpha (data (push_vertex r k d) ! v) = alpha (data r ! v)"
  "next (data (push_vertex r k d) ! v) = next (data r ! v)"
  "prev (data (push_vertex r k d) ! v) = prev (data r ! v)"
  "v \<noteq> k \<Longrightarrow> pos (data (push_vertex r k d) ! v) = pos (data r ! v)"
  by (simp_all add: push_vertex_def Let_def nth_list_update_if)

lemma originals_plain_push:
  "originals_plain a \<Longrightarrow> originals_plain (push_vertex a k d)"
  by (simp add: originals_plain_def is_intersection_def push_vertex_nodes)





lemma tmpo_index_small: "n < 65536 \<Longrightarrow> tmpo_index n = n"
  by (simp add: tmpo_index_def)




text \<open>Rings as clipPolyTransformData leaves them.\<close>

lemma clipPolyTransformData_loop_flags:
  "length (clipPolyTransformData_loop vs n i p cv) = length cv \<and>
   flags (clipPolyTransformData_loop vs n i p cv ! k) = flags (cv ! k)"
proof (induction vs n i p cv rule: clipPolyTransformData_loop.induct)
  case (1 vertices verticesCount i prevv clipVertices)
  show ?case
  proof (cases "i < verticesCount")
    case True
    then show ?thesis
      using 1 by (subst (1 2) clipPolyTransformData_loop.simps) (simp add: nth_list_update_if)
  next
    case False
    then show ?thesis by (simp add: clipPolyTransformData_loop.simps)
  qed
qed

lemma clipPolyTransformData_plain:
  assumes "clipPolyTransformData vs n slab cap = Ok r" "length slab \<le> 65536"
  shows "originals_plain r" "\<forall>v < csize r. \<not> is_intersection (data r ! v)"
proof -
  have n: "n \<le> length slab" and r: "csize r = n" "originalSize r = n"
    using assms(1) by (auto simp: clipPolyTransformData_def Let_def split: if_splits)
  have len: "length (data r) = length slab"
    using assms(1) n
    by (auto simp: clipPolyTransformData_def Let_def clipPolyTransformData_loop_flags split: if_splits)
  have fl: "\<And>v. v < n \<Longrightarrow> flags (data r ! v) = 0"
    using assms(1) n
    by (auto simp: clipPolyTransformData_def Let_def clipPolyTransformData_loop_flags
         nth_list_update_if nth_append zero_ClipVertex_def split: if_splits)
  show "\<forall>v < csize r. \<not> is_intersection (data r ! v)"
    using fl r by (simp add: is_intersection_def)
  then show "originals_plain r"
    using r len assms(2) by (simp add: originals_plain_def)
qed




subsection \<open>The parallel-edge test\<close>

text \<open>
  C2 does not hold of the code: the test is
  \<^verbatim>\<open>cross < 0.000001f || cross > 0.000001f\<close>, which only excludes \<open>cross = 0.000001\<close>.
  Two parallel edges (\<open>cross = 0\<close>) are reported as a hit, with an infinite factor. The
  edge from \<open>(s, 0)\<close> to \<open>(s, s)\<close> of the first small square and the edge from
  \<open>(s/2, s/2)\<close> to \<open>(3s/2, s/2)\<close> of the second, \<open>s = 2^-10\<close>, have
  \<open>cross = - 2^-20\<close>, below \<open>0.000001\<close> in absolute value: they are reported as a hit
  with factor \<open>1/2\<close>, and intersection finding inserts two nodes into each ring.
\<close>

theorem clipPolyLineIntersectionFactor_small_cross_hit:
  "clipPolyLineIntersectionFactor (vec 0 0) (vec 1 0) (vec 0 1) (vec 1 0) = Some NInf \<and>
   clipPolyLineIntersectionFactor (vec (1/1024) 0) (vec 0 (1/1024))
     (vec (1/2048) (1/2048)) (vec (1/1024) 0) = Some (Fin (1/2)) \<and>
   ring_sizes (clipPolygons_prepare 40 small_square_a small_square_b 6) = Ok (6, 6)"
  by (simp add: evals ring_sizes_def small_square_a_def small_square_b_def)

subsection \<open>Emission into a pool that is too small\<close>

text \<open>
  C5 does not hold of the code. Intersection of the two unit squares, one polygon entry
  (holding 7, 7 before the call) and a pool of capacity 2: the polygon has 4 vertices, so
  the pool runs out inside the walk. The function returns \<open>polygons = 1\<close>,
  \<open>vertices = 2\<close>, but the size of polygon 0 is still the 7 the caller left there: the
  \<^verbatim>\<open>return\<close> on a full pool skips the assignment of \<^verbatim>\<open>polygons[currentPoly].size\<close>
  that the normal exit and the start of the next polygon perform.
\<close>

theorem clipPolyEmitClippedPolygons_full_pool_size_not_set:
  "emitted (clipPolygons 40 square_a square_b 6 CFD_FORWARD CFD_FORWARD
      [\<lparr>poly_vertices = 7, poly_size = 7\<rparr>] 1 [vec 9 9, vec 9 9, vec 9 9, vec 9 9] 2) =
   Ok (\<lparr>r_polygons = 1, r_vertices = 2\<rparr>,
       [\<lparr>poly_vertices = 0, poly_size = 7\<rparr>],
       [vec 1 1, vec (1/2) 1, vec 9 9, vec 9 9])"
  by (simp add: evals emitted_def square_a_def square_b_def)

subsection \<open>Rings without intersections: marking and emission\<close>

















lemmas plain_upto_numeral [evals] =
  plain_upto.simps(2) [of "pred_numeral k" for k, folded numeral_eq_Suc]






subsection \<open>Ear clipping: what the triangulator returns\<close>











lemma fill_queryList_length [simp]: "length (fill_queryList n ql) = length ql"
  by (induction n) simp_all






subsection \<open>Intersection finding: the order of alpha along an edge\<close>

lemma f32_less_imp_le: "(a::f32) < b \<Longrightarrow> a \<le> b"
  by (cases a; cases b) simp_all

lemma f32_not_less_imp_le: "\<lbrakk>is_finite a; is_finite b; \<not> (b::f32) < a\<rbrakk> \<Longrightarrow> a \<le> b"
  by (cases a; cases b) (simp_all add: is_finite_def)

lemma f32_unit_finite: "\<lbrakk>Fin 0 \<le> a; a \<le> Fin 1\<rbrakk> \<Longrightarrow> is_finite a"
  by (cases a) (simp_all add: is_finite_def)

lemma clipPolyCreateVertex_links:
  assumes cv: "clipPolyCreateVertex r k = Ok r1"
    and small: "length (data r) \<le> 65536"
    and kn: "k < csize r"
  shows "next (data r1 ! v) =
           (if v = csize r then next (data r ! k)
            else if v = k then csize r else next (data r ! v))"
    and "next (data r ! k) \<noteq> csize r \<Longrightarrow> prev (data r1 ! v) =
           (if v = next (data r ! k) then csize r
            else if v = csize r then k else prev (data r ! v))"
proof -
  let ?d = "data r" and ?n = "csize r"
  from cv have b: "?n < length ?d" "k < length ?d" "next (?d ! k) < length ?d"
    by (auto simp: clipPolyCreateVertex_def Let_def split: if_splits)
  have t: "tmpo_index ?n = ?n" "tmpo_index k = k"
    using b small by (simp_all add: tmpo_index_small)
  define d1 where "d1 = ?d[?n := (?d ! ?n)\<lparr>prev := k, next := next (?d ! k), flags := 0\<rparr>]"
  define d2 where "d2 = d1[k := (d1 ! k)\<lparr>next := ?n\<rparr>]"
  define d3 where "d3 = d2[next (?d ! k) := (d2 ! next (?d ! k))\<lparr>prev := ?n\<rparr>]"
  have r1: "r1 = r\<lparr>data := d3, csize := ?n + 1\<rparr>"
    using cv b t by (simp add: clipPolyCreateVertex_def Let_def d1_def d2_def d3_def)
  have l: "length d1 = length ?d" "length d2 = length ?d" "length d3 = length ?d"
    by (simp_all add: d1_def d2_def d3_def)
  have n1: "\<And>v. next (d1 ! v) = (if v = ?n then next (?d ! k) else next (?d ! v))"
    using b by (simp add: d1_def nth_list_update_if)
  have n2: "\<And>v. next (d2 ! v) = (if v = k then ?n else next (d1 ! v))"
    using b l by (simp add: d2_def nth_list_update_if)
  have n3: "\<And>v. next (d3 ! v) = next (d2 ! v)"
    using b l by (simp add: d3_def nth_list_update_if)
  have p1: "\<And>v. prev (d1 ! v) = (if v = ?n then k else prev (?d ! v))"
    using b by (simp add: d1_def nth_list_update_if)
  have p2: "\<And>v. prev (d2 ! v) = prev (d1 ! v)"
    using b l by (simp add: d2_def nth_list_update_if)
  have p3: "\<And>v. prev (d3 ! v) = (if v = next (?d ! k) then ?n else prev (d2 ! v))"
    using b l by (simp add: d3_def nth_list_update_if)
  show "next (data r1 ! v) =
           (if v = csize r then next (data r ! k)
            else if v = k then csize r else next (data r ! v))"
    using kn by (simp add: r1 n1 n2 n3)
  show "next (data r ! k) \<noteq> csize r \<Longrightarrow> prev (data r1 ! v) =
           (if v = next (data r ! k) then csize r
            else if v = csize r then k else prev (data r ! v))"
    using kn by (simp add: r1 p1 p2 p3)
qed

lemma clipPolyCreateIntersection_links:
  assumes ci: "clipPolyCreateIntersection r k p nb al = Ok r1"
    and small: "length (data r) \<le> 65536"
    and kn: "k < csize r"
  shows "next (data r1 ! v) =
           (if v = csize r then next (data r ! k)
            else if v = k then csize r else next (data r ! v))"
    and "next (data r ! k) \<noteq> csize r \<Longrightarrow> prev (data r1 ! v) =
           (if v = next (data r ! k) then csize r
            else if v = csize r then k else prev (data r ! v))"
proof -
  from ci obtain r0 where r0: "clipPolyCreateVertex r k = Ok r0"
    and r1: "r1 = r0\<lparr>data := (data r0)[csize r := (data r0 ! csize r)\<lparr>pos := p,
              flags := flags (data r0 ! csize r) OR CVF_INTERSECT,
              neighbor := tmpo_index nb, alpha := al\<rparr>]\<rparr>"
    by (auto simp: clipPolyCreateIntersection_def Let_def split: res.splits)
  note lk = clipPolyCreateVertex_links [OF r0 small kn]
  have np: "next (data r1 ! v) = next (data r0 ! v)" "prev (data r1 ! v) = prev (data r0 ! v)"
    by (simp_all add: r1 nth_list_update_if)
  show "next (data r1 ! v) =
           (if v = csize r then next (data r ! k)
            else if v = k then csize r else next (data r ! v))"
    using np lk(1) by simp
  show "next (data r ! k) \<noteq> csize r \<Longrightarrow> prev (data r1 ! v) =
           (if v = next (data r ! k) then csize r
            else if v = csize r then k else prev (data r ! v))"
    using np lk(2) by simp
qed

text \<open>Insertion into a doubly linked ring, on the link functions alone.\<close>

lemma links_insert:
  fixes nx pv :: "nat \<Rightarrow> nat"
  assumes old: "\<forall>v < n. nx v < n \<and> pv v < n \<and> pv (nx v) = v \<and> nx (pv v) = v"
    and k: "k < n"
    and nx': "\<And>v. nx' v = (if v = n then nx k else if v = k then n else nx v)"
    and pv': "\<And>v. pv' v = (if v = nx k then n else if v = n then k else pv v)"
  shows "\<forall>v < Suc n. nx' v < Suc n \<and> pv' v < Suc n \<and> pv' (nx' v) = v \<and> nx' (pv' v) = v"
proof (intro allI impI)
  fix v assume v: "v < Suc n"
  let ?x = "nx k"
  have x: "?x < n" "pv ?x = k" using old k by auto
  show "nx' v < Suc n \<and> pv' v < Suc n \<and> pv' (nx' v) = v \<and> nx' (pv' v) = v"
  proof (cases "v = n")
    case True
    then show ?thesis using x k by (simp add: nx' pv')
  next
    case False
    then have vn: "v < n" using v by simp
    have o: "nx v < n" "pv v < n" "pv (nx v) = v" "nx (pv v) = v" using old vn by auto
    have a1: "nx' v < Suc n" using o k x by (simp add: nx')
    have a2: "pv' v < Suc n" using o k x by (simp add: pv')
    have a3: "pv' (nx' v) = v"
    proof (cases "v = k")
      case True
      then show ?thesis using x by (simp add: nx' pv')
    next
      case False
      have "nx v \<noteq> ?x"
      proof
        assume "nx v = ?x"
        then have "pv (nx v) = pv ?x" by simp
        then show False using o x False by simp
      qed
      then show ?thesis using False vn o by (simp add: nx' pv')
    qed
    have a4: "nx' (pv' v) = v"
    proof (cases "v = ?x")
      case True
      then show ?thesis using x by (simp add: nx' pv')
    next
      case False
      have "pv v \<noteq> k"
      proof
        assume "pv v = k"
        then have "nx (pv v) = nx k" by simp
        then show False using o False by simp
      qed
      then show ?thesis using False vn o by (simp add: nx' pv')
    qed
    show ?thesis using a1 a2 a3 a4 by simp
  qed
qed

lemma clipPolyFindIntersectionIndex_place:
  "\<lbrakk>ring_links r; at_i < csize r; csize r \<le> length (data r);
    is_intersection (data r ! next (data r ! at_i)) \<longrightarrow> al < alpha (data r ! next (data r ! at_i));
    clipPolyFindIntersectionIndex fuel r at_i al = Ok k\<rbrakk>
   \<Longrightarrow> k < csize r \<and>
       (is_intersection (data r ! k) \<longrightarrow> \<not> al < alpha (data r ! k)) \<and>
       (is_intersection (data r ! next (data r ! k)) \<longrightarrow> al < alpha (data r ! next (data r ! k)))"
proof (induction fuel arbitrary: at_i)
  case 0
  then show ?case by simp
next
  case (Suc fuel)
  have b: "at_i < length (data r)" using Suc.prems by simp
  show ?case
  proof (cases "is_intersection (data r ! at_i) \<and> al < alpha (data r ! at_i)")
    case True
    let ?p = "prev (data r ! at_i)"
    have p: "?p < csize r" "next (data r ! ?p) = at_i"
      using Suc.prems(1,2) by (auto simp: ring_links_def)
    have run: "clipPolyFindIntersectionIndex fuel r ?p al = Ok k"
      using Suc.prems(5) b True by (simp add: Let_def is_intersection_def)
    show ?thesis
      by (rule Suc.IH [OF Suc.prems(1) p(1) Suc.prems(3) _ run]) (simp add: p True)
  next
    case False
    then have "k = at_i"
      using Suc.prems(5) b by (auto simp: Let_def is_intersection_def split: if_splits)
    then show ?thesis using False Suc.prems by auto
  qed
qed


lemma ring_wf_push: "ring_wf r \<Longrightarrow> ring_wf (push_vertex r k d)"
  by (simp add: ring_wf_def originals_plain_push ring_links_def alphas_finite_def
        alphas_ascending_def is_intersection_def push_vertex_nodes)

lemma ring_wf_insert:
  assumes wf: "ring_wf r"
    and i: "i < originalSize r"
    and al: "Fin 0 \<le> al" "al \<le> Fin 1"
    and fi: "clipPolyFindIntersectionIndex fuel r (prev (data r ! i)) al = Ok k"
    and ci: "clipPolyCreateIntersection r k p nb al = Ok r1"
  shows "ring_wf r1"
proof -
  let ?n = "csize r"
  have op: "originals_plain r" and cl: "?n \<le> length (data r)" and lk: "ring_links r"
    and fin: "alphas_finite r" and asc: "alphas_ascending r"
    using wf by (simp_all add: ring_wf_def)
  have small: "length (data r) \<le> 65536" and os: "originalSize r \<le> ?n"
    and pl: "\<not> is_intersection (data r ! i)"
    using op i by (simp_all add: originals_plain_def)
  have ic: "i < ?n" using i os by simp
  have p0: "prev (data r ! i) < ?n" "next (data r ! prev (data r ! i)) = i"
    using lk ic by (auto simp: ring_links_def)
  have place: "k < ?n \<and>
       (is_intersection (data r ! k) \<longrightarrow> \<not> al < alpha (data r ! k)) \<and>
       (is_intersection (data r ! next (data r ! k)) \<longrightarrow> al < alpha (data r ! next (data r ! k)))"
    by (rule clipPolyFindIntersectionIndex_place [OF lk p0(1) cl _ fi]) (simp add: p0 pl)
  then have kn: "k < ?n" by simp
  let ?x = "next (data r ! k)"
  have xn: "?x < ?n" using lk kn by (auto simp: ring_links_def)
  then have xne: "?x \<noteq> ?n" by simp
  note sz = clipPolyCreateIntersection_sizes [OF ci]
  note nd = clipPolyCreateIntersection_nodes [OF ci]
  note ln = clipPolyCreateIntersection_links [OF ci small kn]
  have nx: "\<And>v. next (data r1 ! v) = (if v = ?n then ?x else if v = k then ?n else next (data r ! v))"
    by (rule ln(1))
  have pv: "\<And>v. prev (data r1 ! v) = (if v = ?x then ?n else if v = ?n then k else prev (data r ! v))"
    by (rule ln(2) [OF xne])
  have af: "is_finite al" using al by (rule f32_unit_finite)
  have xi: "\<And>v. v \<noteq> ?n \<Longrightarrow> is_intersection (data r1 ! v) = is_intersection (data r ! v)"
    by (simp add: is_intersection_def nd(6))
  have xnew: "is_intersection (data r1 ! ?n)"
    by (simp add: is_intersection_def nd(2) CVF_INTERSECT_def)
  have a1: "originals_plain r1"
    using op sz by (auto simp: originals_plain_def xi)
  have a2: "csize r1 \<le> length (data r1)" using sz by simp
  have a3: "ring_links r1"
  proof -
    have "\<forall>v < ?n. next (data r ! v) < ?n \<and> prev (data r ! v) < ?n \<and>
            prev (data r ! next (data r ! v)) = v \<and> next (data r ! prev (data r ! v)) = v"
      using lk by (simp add: ring_links_def)
    from links_insert [where nx = "\<lambda>v. next (data r ! v)" and pv = "\<lambda>v. prev (data r ! v)"
        and nx' = "\<lambda>v. next (data r1 ! v)" and pv' = "\<lambda>v. prev (data r1 ! v)", OF this kn nx pv]
    show ?thesis by (simp add: ring_links_def sz)
  qed
  have a4: "alphas_finite r1"
    unfolding alphas_finite_def
  proof (intro allI impI)
    fix v assume v: "v < csize r1" and x: "is_intersection (data r1 ! v)"
    show "is_finite (alpha (data r1 ! v))"
    proof (cases "v = ?n")
      case True
      then show ?thesis using af by (simp add: nd(4))
    next
      case False
      then show ?thesis using fin v x sz by (simp add: alphas_finite_def xi nd(8))
    qed
  qed
  have a5: "alphas_ascending r1"
    unfolding alphas_ascending_def
  proof (intro allI impI)
    fix v
    assume v: "v < csize r1"
      and x: "is_intersection (data r1 ! v) \<and> is_intersection (data r1 ! next (data r1 ! v))"
    show "alpha (data r1 ! v) \<le> alpha (data r1 ! next (data r1 ! v))"
    proof (cases "v = ?n")
      case True
      have "is_intersection (data r ! ?x)" using x True xne by (simp add: nx xi)
      then have "al < alpha (data r ! ?x)" using place by simp
      then have "al \<le> alpha (data r ! ?x)" by (rule f32_less_imp_le)
      then show ?thesis using True xne by (simp add: nx nd(4) nd(8))
    next
      case False
      then have vn: "v < ?n" using v sz by simp
      show ?thesis
      proof (cases "v = k")
        case True
        have ik: "is_intersection (data r ! k)" using x True False by (simp add: xi)
        then have nl: "\<not> al < alpha (data r ! k)" using place by simp
        have fk: "is_finite (alpha (data r ! k))" using fin kn ik by (simp add: alphas_finite_def)
        have "alpha (data r ! k) \<le> al" by (rule f32_not_less_imp_le [OF fk af nl])
        then show ?thesis using True False by (simp add: nx nd(4) nd(8))
      next
        case nk: False
        let ?w = "next (data r ! v)"
        have w: "?w < ?n" using lk vn by (auto simp: ring_links_def)
        then have wne: "?w \<noteq> ?n" by simp
        have e: "next (data r1 ! v) = ?w" using False nk by (simp add: nx)
        have "is_intersection (data r ! v) \<and> is_intersection (data r ! ?w)"
          using x False wne by (simp add: e xi)
        then have "alpha (data r ! v) \<le> alpha (data r ! ?w)"
          using asc vn by (simp add: alphas_ascending_def)
        then show ?thesis using False wne by (simp add: e nd(8))
      qed
    qed
  qed
  show ?thesis using a1 a2 a3 a4 a5 by (simp add: ring_wf_def)
qed

lemma clipPolyFindIntersections_ring_wf:
  assumes "clipPolyFindIntersections fuel a b = Ok (a', b')" "rings_wf a b"
  shows "rings_wf a' b'"
proof (rule find_loop_invariant [where P = rings_wf])
  show "clipPolyFindIntersections_loop fuel a b 0 0 (originalSize a - 1) (originalSize b - 1)
        = Ok (a', b')"
    using assms(1) by (simp add: clipPolyFindIntersections_def)
  show "rings_wf a b" by (rule assms(2))
  show "0 < originalSize a \<longrightarrow> originalSize a - 1 < originalSize a" by simp
  show "0 < originalSize b \<longrightarrow> originalSize b - 1 < originalSize b" by simp
next
  fix a b k d
  assume "rings_wf a b"
  then show "rings_wf (push_vertex a k d) b" by (simp add: rings_wf_def ring_wf_push)
next
  fix a b k d
  assume "rings_wf a b"
  then show "rings_wf a (push_vertex b k d)" by (simp add: rings_wf_def ring_wf_push)
next
  fix a b i j aAlpha bAlpha aIndex bIndex p a1 b1 fuel
  assume w: "rings_wf a b" and i: "i < originalSize a" and j: "j < originalSize b"
    and al: "aAlpha \<ge> Fin 0" "aAlpha \<le> Fin 1" and bl: "bAlpha \<ge> Fin 0" "bAlpha \<le> Fin 1"
    and fa: "clipPolyFindIntersectionIndex fuel a (prev (data a ! i)) aAlpha = Ok aIndex"
    and fb: "clipPolyFindIntersectionIndex fuel b (prev (data b ! j)) bAlpha = Ok bIndex"
    and ca: "clipPolyCreateIntersection a aIndex p (csize b) aAlpha = Ok a1"
    and cb: "clipPolyCreateIntersection b bIndex p (csize a) bAlpha = Ok b1"
  have wa: "ring_wf a" and wb: "ring_wf b" using w by (simp_all add: rings_wf_def)
  have "ring_wf a1" by (rule ring_wf_insert [OF wa i al fa ca])
  moreover have "ring_wf b1" by (rule ring_wf_insert [OF wb j bl fb cb])
  ultimately show "rings_wf a1 b1" by (simp add: rings_wf_def)
qed


text \<open>The links that clipPolyTransformData writes: a cycle through the first \<open>n\<close> nodes.\<close>

lemma clipPolyTransformData_loop_before:
  "k < i \<Longrightarrow> clipPolyTransformData_loop vs n i p cv ! k = cv ! k"
proof (induction vs n i p cv rule: clipPolyTransformData_loop.induct)
  case (1 vertices verticesCount i prevv clipVertices)
  show ?case
  proof (cases "i < verticesCount")
    case True
    then show ?thesis
      using 1 by (subst clipPolyTransformData_loop.simps) (simp add: nth_list_update_if)
  next
    case False
    then show ?thesis by (simp add: clipPolyTransformData_loop.simps)
  qed
qed

lemma clipPolyTransformData_loop_links:
  "\<lbrakk>n \<le> length cv; i \<le> k; k < n\<rbrakk> \<Longrightarrow>
   next (clipPolyTransformData_loop vs n i p cv ! k) = tmpo_index (k + 1) \<and>
   prev (clipPolyTransformData_loop vs n i p cv ! k) = (if k = i then p else tmpo_index (k - 1))"
proof (induction vs n i p cv rule: clipPolyTransformData_loop.induct)
  case (1 vertices verticesCount i prevv clipVertices)
  have lt: "i < verticesCount" using "1.prems" by simp
  let ?cv = "clipVertices[i := (clipVertices ! i)
              \<lparr>pos := vertices ! i, next := tmpo_index (i + 1), prev := prevv\<rparr>]"
  have step: "clipPolyTransformData_loop vertices verticesCount i prevv clipVertices =
              clipPolyTransformData_loop vertices verticesCount (i + 1) (tmpo_index i) ?cv"
    using lt by (subst clipPolyTransformData_loop.simps) simp
  show ?case
  proof (cases "k = i")
    case True
    have "clipPolyTransformData_loop vertices verticesCount (i + 1) (tmpo_index i) ?cv ! k = ?cv ! k"
      using True by (intro clipPolyTransformData_loop_before) simp
    then show ?thesis using True lt "1.prems" by (simp add: step)
  next
    case False
    then have "i + 1 \<le> k" using "1.prems" by simp
    from "1.IH" [OF lt _ this "1.prems"(3)] "1.prems"(1) False
    show ?thesis by (auto simp: step)
  qed
qed

lemma clipPolyTransformData_links:
  assumes t: "clipPolyTransformData vs n slab cap = Ok r" and small: "length slab \<le> 65536"
  shows "ring_links r"
proof -
  have n: "n \<le> length slab" and r: "csize r = n"
    using t by (auto simp: clipPolyTransformData_def Let_def split: if_splits)
  define z where "z = replicate n zero_ClipVertex @ drop n slab"
  define l where "l = clipPolyTransformData_loop vs n 0 (tmpo_index (tmpo_index n + 65535)) z"
  have zl: "n \<le> length z" using n by (simp add: z_def)
  have ll: "length l = length z" by (simp add: l_def clipPolyTransformData_loop_flags)
  have d: "n \<noteq> 0 \<Longrightarrow> data r = l[n - 1 := (l ! (n - 1))\<lparr>next := 0\<rparr>]"
    using t n by (auto simp: clipPolyTransformData_def Let_def z_def l_def split: if_splits)
  have n16: "n \<le> 65536" using n small by simp
  have p0: "0 < n \<Longrightarrow> tmpo_index (tmpo_index n + 65535) = n - 1"
  proof (cases "n = 65536")
    case True
    then show ?thesis by (simp add: tmpo_index_def)
  next
    case False
    assume "0 < n"
    then show ?thesis using False n16 by (simp add: tmpo_index_def mod_if)
  qed
  have lk: "\<And>k. k < n \<Longrightarrow> next (l ! k) = tmpo_index (k + 1) \<and>
                 prev (l ! k) = (if k = 0 then n - 1 else k - 1)"
  proof -
    fix k assume k: "k < n"
    have "tmpo_index (k - 1) = k - 1" using k n16 by (simp add: tmpo_index_small)
    then show "next (l ! k) = tmpo_index (k + 1) \<and> prev (l ! k) = (if k = 0 then n - 1 else k - 1)"
      using clipPolyTransformData_loop_links [OF zl _ k, of 0 vs "tmpo_index (tmpo_index n + 65535)"]
        p0 k by (simp add: l_def)
  qed
  have nx: "\<And>k. k < n \<Longrightarrow> next (data r ! k) = (if k = n - 1 then 0 else k + 1)"
  proof -
    fix k assume k: "k < n"
    then have "k \<noteq> n - 1 \<Longrightarrow> tmpo_index (k + 1) = k + 1"
      using n16 by (intro tmpo_index_small) simp
    then show "next (data r ! k) = (if k = n - 1 then 0 else k + 1)"
      using k d lk [OF k] zl ll by (simp add: nth_list_update_if)
  qed
  have pv: "\<And>k. k < n \<Longrightarrow> prev (data r ! k) = (if k = 0 then n - 1 else k - 1)"
    using d lk by (simp add: nth_list_update_if)
  show ?thesis
    unfolding ring_links_def r
  proof (intro allI impI)
    fix v assume v: "v < n"
    have a: "next (data r ! v) < n" "prev (data r ! v) < n" using v by (auto simp: nx pv)
    show "next (data r ! v) < n \<and> prev (data r ! v) < n \<and>
          prev (data r ! next (data r ! v)) = v \<and> next (data r ! prev (data r ! v)) = v"
      using a v by (auto simp: nx pv)
  qed
qed

lemma clipPolyTransformData_ring_wf:
  assumes t: "clipPolyTransformData vs n slab cap = Ok r" and small: "length slab \<le> 65536"
  shows "ring_wf r"
proof -
  note pl = clipPolyTransformData_plain [OF t small]
  have "csize r \<le> length (data r)"
    using t by (auto simp: clipPolyTransformData_def Let_def clipPolyTransformData_loop_flags
                     split: if_splits)
  then show ?thesis
    using pl clipPolyTransformData_links [OF t small]
    by (simp add: ring_wf_def alphas_finite_def alphas_ascending_def)
qed

text \<open>
  C4, amended: for two rings made by \<^verbatim>\<open>clipPolyTransformData\<close> in slabs of at most 65536
  nodes, whenever \<^verbatim>\<open>clipPolyFindIntersections\<close> returns, any two intersection nodes that
  follow each other in a ring (they were inserted on the same original edge) have alpha
  values that do not decrease in ring order. Equal values are possible.
\<close>

theorem clipPolyFindIntersections_alphas_ascending:
  assumes "clipPolyTransformData va na slab_a cap_a = Ok a"
    and "clipPolyTransformData vb nb slab_b cap_b = Ok b"
    and "length slab_a \<le> 65536" and "length slab_b \<le> 65536"
    and "clipPolyFindIntersections fuel a b = Ok (a', b')"
  shows "alphas_ascending a' \<and> alphas_ascending b'"
proof -
  have "rings_wf a b"
    using clipPolyTransformData_ring_wf [OF assms(1) assms(3)]
      clipPolyTransformData_ring_wf [OF assms(2) assms(4)]
    by (simp add: rings_wf_def)
  then have "rings_wf a' b'"
    using assms(5) clipPolyFindIntersections_ring_wf by blast
  then show ?thesis by (simp add: rings_wf_def ring_wf_def)
qed


lemma alpha_tie_rings:
  "\<exists>a b a' b'.
     clipPolyTransformData alpha_tie_a 3 (replicate 16 zero_ClipVertex) 16 = Ok a \<and>
     clipPolyTransformData alpha_tie_b 8 (replicate 16 zero_ClipVertex) 16 = Ok b \<and>
     clipPolyFindIntersections 60 a b = Ok (a', b') \<and>
     csize a' = 9 \<and> next (data a' ! 4) = 6 \<and>
     is_intersection (data a' ! 4) \<and> is_intersection (data a' ! 6) \<and>
     alpha (data a' ! 4) = Fin (1/2) \<and> alpha (data a' ! 6) = Fin (1/2) \<and>
     pos (data a' ! 4) = vec 2 2 \<and> pos (data a' ! 6) = vec 2 (1282/625)"
  by (simp add: evals alpha_tie_a_def alpha_tie_b_def is_intersection_def)

text \<open>
  C4, as stated, fails: the walk of \<^verbatim>\<open>clipPolyFindIntersectionIndex\<close> stops at a node whose
  alpha is not greater than the new one, so ties are kept; and the degeneracy push moves an
  end of the edge between two insertions. On the triangle's edge from \<open>(0, 0)\<close> to
  \<open>(4, 4)\<close> the octagon's edge from \<open>(2, 1)\<close> gives node 4 at \<open>(2, 2)\<close> with alpha 1/2;
  the edge on \<open>y = 4\<close> pushes the vertex \<open>(4, 4)\<close> up by \<open>1024 * 0.0001\<close>; the edge from
  \<open>(2, 5)\<close> then gives node 6 at another point, again with alpha 1/2, inserted right
  after node 4. Both alphas are computed as \<open>2 * d / (4 * d)\<close> from the \<open>x\<close> coordinates
  alone.
\<close>

theorem clipPolyFindIntersections_equal_alphas:
  "\<exists>a b a' b'.
     clipPolyTransformData alpha_tie_a 3 (replicate 16 zero_ClipVertex) 16 = Ok a \<and>
     clipPolyTransformData alpha_tie_b 8 (replicate 16 zero_ClipVertex) 16 = Ok b \<and>
     clipPolyFindIntersections 60 a b = Ok (a', b') \<and>
     4 < csize a' \<and> is_intersection (data a' ! 4) \<and>
     is_intersection (data a' ! next (data a' ! 4)) \<and>
     \<not> alpha (data a' ! 4) < alpha (data a' ! next (data a' ! 4))"
proof -
  obtain a b a' b' where h:
    "clipPolyTransformData alpha_tie_a 3 (replicate 16 zero_ClipVertex) 16 = Ok a"
    "clipPolyTransformData alpha_tie_b 8 (replicate 16 zero_ClipVertex) 16 = Ok b"
    "clipPolyFindIntersections 60 a b = Ok (a', b')"
    "csize a' = 9" "next (data a' ! 4) = 6"
    "is_intersection (data a' ! 4)" "is_intersection (data a' ! 6)"
    "alpha (data a' ! 4) = Fin (1/2)" "alpha (data a' ! 6) = Fin (1/2)"
    using alpha_tie_rings by blast
  have "\<not> alpha (data a' ! 4) < alpha (data a' ! next (data a' ! 4))"
    by (simp add: h)
  then show ?thesis using h by (intro exI [of _ a] exI [of _ b] exI [of _ a'] exI [of _ b']) simp
qed

theorem clipPolyFindIntersections_alphas_ascending_witness:
  "\<exists>a b a' b'.
     clipPolyTransformData alpha_tie_a 3 (replicate 16 zero_ClipVertex) 16 = Ok a \<and>
     clipPolyTransformData alpha_tie_b 8 (replicate 16 zero_ClipVertex) 16 = Ok b \<and>
     length (replicate 16 zero_ClipVertex) \<le> 65536 \<and>
     clipPolyFindIntersections 60 a b = Ok (a', b') \<and>
     csize a' = 9 \<and> next (data a' ! 4) = 6 \<and>
     is_intersection (data a' ! 4) \<and> is_intersection (data a' ! 6) \<and>
     alphas_ascending a' \<and> alphas_ascending b'"
proof -
  obtain a b a' b' where h:
    "clipPolyTransformData alpha_tie_a 3 (replicate 16 zero_ClipVertex) 16 = Ok a"
    "clipPolyTransformData alpha_tie_b 8 (replicate 16 zero_ClipVertex) 16 = Ok b"
    "clipPolyFindIntersections 60 a b = Ok (a', b')"
    "csize a' = 9" "next (data a' ! 4) = 6"
    "is_intersection (data a' ! 4)" "is_intersection (data a' ! 6)"
    using alpha_tie_rings by blast
  have l: "length (replicate 16 zero_ClipVertex) \<le> 65536" by simp
  have "alphas_ascending a' \<and> alphas_ascending b'"
    using clipPolyFindIntersections_alphas_ascending [OF h(1) h(2) l l h(3)] .
  then show ?thesis using h l by blast
qed

end
